theory Spec2Isabelle
  imports Main "HOL-Library.Word"
begin

section \<open>The project-quota driver of pouch (storage/quota/prjquota.go)\<close>

text \<open>
  The driver is a Go struct with two maps and a marker, guarded by one mutex. Every
  method is modelled as a function from the driver value to the new driver value. The
  methods talk to the rest of the system through functions that are not part of the file
  (\<open>getDevID\<close>, \<open>setDevLimit\<close>, \<open>checkDevLimit\<close>, \<open>getMountpointFstype\<close>,
  \<open>loadQuotaIDs\<close>, \<open>exec.Run\<close>, \<open>bytefmt.ToKilobytes\<close>, \<open>ioutil.ReadFile\<close>,
  \<open>path.Dir\<close>) and through the constant \<open>QuotaMinID\<close>: they are the fields of the
  record \<open>env\<close>, a snapshot of the machine that answers for the duration of one method
  call. Consecutive calls may be given different snapshots. Each method returns, next to
  its Go results, the list of commands it handed to \<open>exec.Run\<close>, in order.
\<close>

type_synonym u32 = "32 word"
type_synonym u64 = "64 word"

subsection \<open>Errors\<close>

text \<open>
  A Go \<open>error\<close> is \<open>error option\<close>, \<open>None\<close> being \<open>nil\<close>. \<open>Extern\<close> is an error
  made by a collaborator, \<open>Errorf\<close> one made by the driver, \<open>Wrap\<close> the result of
  \<open>errors.Wrapf\<close>. Messages keep the constant head of the format string; the formatted
  arguments are left out.
\<close>

datatype error = Extern string | Errorf string | Wrap error string

text \<open>\<open>errors.Wrapf\<close> of github.com/pkg/errors returns \<open>nil\<close> when the error is \<open>nil\<close>.\<close>

fun Wrapf :: "error option \<Rightarrow> string \<Rightarrow> error option" where
  "Wrapf None msg = None"
| "Wrapf (Some e) msg = Some (Wrap e msg)"

subsection \<open>Library functions of Go\<close>

text \<open>
  \<open>strings.Split\<close> with a separator of one byte, the only use the driver makes of it:
  the pieces between the separators, one piece more than there are separators.
\<close>

fun Split :: "string \<Rightarrow> char \<Rightarrow> string list" where
  "Split [] sep = [[]]"
| "Split (c # cs) sep =
     (if c = sep then [] # Split cs sep
      else (case Split cs sep of
              [] \<Rightarrow> [[c]]
            | p # ps \<Rightarrow> (c # p) # ps))"

fun has_prefix :: "string \<Rightarrow> string \<Rightarrow> bool" where
  "has_prefix s [] = True"
| "has_prefix [] (p # ps) = False"
| "has_prefix (c # cs) (p # ps) = (c = p \<and> has_prefix cs ps)"

text \<open>\<open>strings.Contains\<close>: the second string occurs in the first.\<close>

fun Contains :: "string \<Rightarrow> string \<Rightarrow> bool" where
  "Contains [] sub = (sub = [])"
| "Contains (c # cs) sub = (has_prefix (c # cs) sub \<or> Contains cs sub)"

definition digit_char :: "nat \<Rightarrow> char" where
  "digit_char d = ''0123456789'' ! d"

text \<open>\<open>strconv.FormatUint(n, 10)\<close>: the decimal digits of \<open>n\<close>.\<close>

fun FormatUint :: "nat \<Rightarrow> string" where
  "FormatUint n =
     (if n < 10 then [digit_char n]
      else FormatUint (n div 10) @ [digit_char (n mod 10)])"

declare FormatUint.simps [simp del]

definition is_digit :: "char \<Rightarrow> bool" where
  "is_digit c = ((48::nat) \<le> of_char c \<and> (of_char c :: nat) \<le> 57)"

fun digits_value :: "nat \<Rightarrow> string \<Rightarrow> nat" where
  "digits_value acc [] = acc"
| "digits_value acc (c # cs) = digits_value (10 * acc + ((of_char c :: nat) - 48)) cs"

text \<open>
  \<open>strconv.Atoi\<close> on a 64-bit platform: an optional sign and decimal digits. A string
  that is not a number gives 0 and an error; a number out of range gives the nearest
  bound and an error.
\<close>

definition Atoi :: "string \<Rightarrow> int \<times> error option" where
  "Atoi s =
     (let neg = (s \<noteq> [] \<and> hd s = CHR ''-'');
          ds = (if s \<noteq> [] \<and> (hd s = CHR ''+'' \<or> hd s = CHR ''-'') then tl s else s)
      in if ds = [] \<or> \<not> list_all is_digit ds then (0, Some (Extern ''invalid syntax''))
         else let n = int (digits_value 0 ds)
              in if neg then
                   (if n > 2 ^ 63 then (- (2 ^ 63), Some (Extern ''value out of range''))
                    else (- n, None))
                 else
                   (if n \<ge> 2 ^ 63 then (2 ^ 63 - 1, Some (Extern ''value out of range''))
                    else (n, None)))"

subsection \<open>The driver and its environment\<close>

text \<open>
  \<open>quotaIDs\<close> is a Go \<open>map[uint32]struct{}\<close>, that is, a set. Both maps are taken to
  be allocated (the constructor is not part of the file).
\<close>

record PrjQuotaDriver =
  quotaIDs :: "u32 set"
  mountPoints :: "u64 \<rightharpoonup> string"
  lastID :: u32

type_synonym run_result = "int \<times> string \<times> string \<times> error option"

record env =
  getDevID :: "string \<Rightarrow> u64 \<times> error option"
  setDevLimit :: "string \<Rightarrow> u64 \<Rightarrow> u64 \<times> error option"
  checkDevLimit :: "string \<Rightarrow> u64 \<Rightarrow> error option"
  getMountpointFstype :: "string \<Rightarrow> string \<times> string \<times> error option"
  loadQuotaIDs :: "string \<Rightarrow> u32 set \<times> u32 \<times> error option"
  QuotaMinID :: u32
  ReadFile_procMountFile :: "string \<times> error option"
  exec_Run :: "string list \<Rightarrow> run_result"
  ToKilobytes :: "string \<Rightarrow> u64 \<times> error option"
  path_Dir :: "string \<Rightarrow> string"

text \<open>
  Modelled from the spec: the three filesystem kinds, constants of the package that are
  declared outside prjquota.go. The spec names them ext3, ext4 and xfs.
\<close>

definition xfsFS :: string where "xfsFS = ''xfs''"
definition ext3FS :: string where "ext3FS = ''ext3''"
definition ext4FS :: string where "ext4FS = ''ext4''"

definition run_err :: "run_result \<Rightarrow> error option" where
  "run_err r = snd (snd (snd r))"

definition run_stderr :: "run_result \<Rightarrow> string" where
  "run_stderr r = fst (snd (snd r))"

definition run_stdout :: "run_result \<Rightarrow> string" where
  "run_stdout r = fst (snd r)"

subsection \<open>CheckMountpoint\<close>

text \<open>The inner loop over the options of one mount-table line.\<close>

fun scan_options :: "bool \<Rightarrow> string list \<Rightarrow> bool" where
  "scan_options enableQuota [] = enableQuota"
| "scan_options enableQuota (v # vs) =
     (if v = ''prjquota'' then True else scan_options enableQuota vs)"

text \<open>
  One round of the loop over the lines: the three local variables before and after.
  The error of \<open>getDevID\<close> is dropped, as in the source.
\<close>

definition mount_line ::
  "env \<Rightarrow> u64 \<Rightarrow> string \<times> bool \<times> string \<Rightarrow> string \<Rightarrow> string \<times> bool \<times> string" where
  "mount_line E devID vars line =
     (case vars of (mountPoint, enableQuota, fsType) \<Rightarrow>
        let parts = Split line CHR '' '' in
        if length parts \<noteq> 6 then vars
        else if parts ! 2 \<noteq> xfsFS \<and> parts ! 2 \<noteq> ext3FS \<and> parts ! 2 \<noteq> ext4FS then vars
        else if devID \<noteq> fst (getDevID E (parts ! 1)) then vars
        else if mountPoint \<noteq> [] \<and> length mountPoint < length (parts ! 1) then vars
        else (parts ! 1, scan_options enableQuota (Split (parts ! 3) CHR '',''), parts ! 2))"

definition CheckMountpoint :: "env \<Rightarrow> u64 \<Rightarrow> string \<times> bool \<times> string" where
  "CheckMountpoint E devID =
     (case ReadFile_procMountFile E of
        (output, Some err) \<Rightarrow> ([], False, [])
      | (output, None) \<Rightarrow>
          foldl (mount_line E devID) ([], False, []) (Split output (CHR 0x0A)))"

subsection \<open>EnforceQuota\<close>

definition remount_cmd :: "string \<Rightarrow> string list" where
  "remount_cmd mountPoint = [''mount'', ''-o'', ''remount,prjquota'', mountPoint]"

definition quotaon_cmd :: "string \<Rightarrow> string list" where
  "quotaon_cmd mountPoint = [''quotaon'', ''-P'', mountPoint]"

text \<open>
  The results are the mountpoint, the error, the driver afterwards and the commands run.
  In the branch of a failed \<open>quotaon\<close> the source wraps \<open>err\<close>, the error of
  \<open>getMountpointFstype\<close>, which is \<open>nil\<close> there, and not \<open>err2\<close>.
\<close>

definition EnforceQuota ::
  "env \<Rightarrow> string \<Rightarrow> PrjQuotaDriver \<Rightarrow>
     string \<times> error option \<times> PrjQuotaDriver \<times> string list list" where
  "EnforceQuota E dir q =
     (case getDevID E dir of
        (devID, Some err) \<Rightarrow>
          ([], Wrapf (Some err) ''failed to get device id for directory'', q, [])
      | (devID, None) \<Rightarrow>
     (case snd (setDevLimit E dir devID) of
        Some err \<Rightarrow> ([], Wrapf (Some err) ''failed to set device limit'', q, [])
      | None \<Rightarrow>
     (case mountPoints q devID of
        Some mp \<Rightarrow> (mp, None, q, [])
      | None \<Rightarrow>
     (case CheckMountpoint E devID of (mountPoint, hasQuota, _) \<Rightarrow>
        if length mountPoint = 0
        then (mountPoint, Some (Errorf ''mountPoint not found for the device on which dir lies''),
              q, [])
        else
          let c1 = (if \<not> hasQuota then [remount_cmd mountPoint] else []);
              err1 = (if \<not> hasQuota then run_err (exec_Run E (remount_cmd mountPoint))
                      else None)
          in if err1 \<noteq> None then ([], Wrapf err1 ''failed to remount prjquota'', q, c1)
          else
     (case getMountpointFstype E dir of
        (_, fstype, Some err) \<Rightarrow>
          ([], Wrapf (Some err) ''failed to get filesystem type'', q, c1)
      | (_, fstype, None) \<Rightarrow>
          if fstype \<noteq> xfsFS then
            (let r = exec_Run E (quotaon_cmd mountPoint);
                 c2 = c1 @ [quotaon_cmd mountPoint]
             in if run_err r \<noteq> None then
                  (if Contains (run_stderr r) '' File exists''
                   then (mountPoint, None,
                         q\<lparr>mountPoints := (mountPoints q)(devID \<mapsto> mountPoint)\<rparr>, c2)
                   else ([], Wrapf None ''failed to quota on'',
                         q\<lparr>mountPoints := (mountPoints q)(devID \<mapsto> [])\<rparr>, c2))
                else (mountPoint, None,
                      q\<lparr>mountPoints := (mountPoints q)(devID \<mapsto> mountPoint)\<rparr>, c2))
          else (mountPoint, None,
                q\<lparr>mountPoints := (mountPoints q)(devID \<mapsto> mountPoint)\<rparr>, c1))))))"

subsection \<open>GetNextQuotaID\<close>

text \<open>
  The \<open>for\<close> loop of the allocator: raise \<open>id\<close> to the floor, increment it (a
  \<open>uint32\<close>, so the increment wraps), leave when it is not a key of the map. Nothing
  bounds the loop, so it is a partial function: \<open>None\<close> is a loop that never leaves.
\<close>

partial_function (option) next_free :: "u32 \<Rightarrow> u32 set \<Rightarrow> u32 \<Rightarrow> u32 option" where
  "next_free minID ids id' =
     (if (if id' < minID then minID else id') + 1 \<notin> ids
      then Some ((if id' < minID then minID else id') + 1)
      else next_free minID ids ((if id' < minID then minID else id') + 1))"

text \<open>
  The tuple assignment from \<open>loadQuotaIDs\<close> stores the set and the marker before the
  error is looked at.
\<close>

definition reload :: "env \<Rightarrow> PrjQuotaDriver \<Rightarrow> PrjQuotaDriver \<times> error option" where
  "reload E q =
     (if lastID q = 0 then
        (case loadQuotaIDs E ''-Pan'' of
           (ids, lastid, err) \<Rightarrow> (q\<lparr>quotaIDs := ids, lastID := lastid\<rparr>, err))
      else (q, None))"

definition GetNextQuotaID ::
  "env \<Rightarrow> PrjQuotaDriver \<Rightarrow> (u32 \<times> error option \<times> PrjQuotaDriver) option" where
  "GetNextQuotaID E q =
     (case reload E q of
        (q1, Some err) \<Rightarrow> Some (0, Wrapf (Some err) ''failed to load quota list'', q1)
      | (q1, None) \<Rightarrow>
          (case next_free (QuotaMinID E) (quotaIDs q1) (lastID q1) of
             None \<Rightarrow> None
           | Some id' \<Rightarrow>
               Some (id', None, q1\<lparr>quotaIDs := insert id' (quotaIDs q1), lastID := id'\<rparr>)))"

subsection \<open>GetQuotaIDInFileAttr\<close>

text \<open>The loop over the lines of the output of \<open>lsattr\<close>; the error of \<open>Atoi\<close> is dropped.\<close>

fun lsattr_lines :: "string \<Rightarrow> string list \<Rightarrow> u32" where
  "lsattr_lines dir [] = 0"
| "lsattr_lines dir (line # lines) =
     (let parts = Split line CHR '' '' in
      if length parts > 2 \<and> parts ! 2 = dir then word_of_int (fst (Atoi (parts ! 0)))
      else lsattr_lines dir lines)"

definition lsattr_cmd :: "string \<Rightarrow> string list" where
  "lsattr_cmd parent = [''lsattr'', ''-p'', parent]"

definition GetQuotaIDInFileAttr :: "env \<Rightarrow> string \<Rightarrow> u32 \<times> string list list" where
  "GetQuotaIDInFileAttr E dir =
     (let parent = path_Dir E dir;
          r = exec_Run E (lsattr_cmd parent)
      in if run_err r \<noteq> None then (0, [lsattr_cmd parent])
         else (lsattr_lines dir (Split (run_stdout r) (CHR 0x0A)), [lsattr_cmd parent]))"

subsection \<open>SetSubtree and the other binders\<close>

definition chattr_cmd :: "string \<Rightarrow> string \<Rightarrow> string list" where
  "chattr_cmd strid dir = [''chattr'', ''-p'', strid, ''+P'', dir]"

definition xfs_project_cmd :: "string \<Rightarrow> string \<Rightarrow> string list" where
  "xfs_project_cmd strid dir =
     [''xfs_quota'', ''-x'', ''-c'', ''project -s -p '' @ dir @ '' '' @ strid]"

text \<open>The part of \<open>SetSubtree\<close> after the identifier is known.\<close>

definition tag_subtree ::
  "env \<Rightarrow> string \<Rightarrow> u32 \<Rightarrow> u32 \<times> error option \<times> string list list" where
  "tag_subtree E dir id' =
     (case getMountpointFstype E dir of
        (_, fstype, Some err) \<Rightarrow> (0, Wrapf (Some err) ''failed to get fs type'', [])
      | (_, fstype, None) \<Rightarrow>
          let strid = FormatUint (unat id') in
          if fstype \<noteq> xfsFS then
            (id', Wrapf (run_err (exec_Run E (chattr_cmd strid dir))) ''failed to chattr'',
             [chattr_cmd strid dir])
          else
            (id', Wrapf (run_err (exec_Run E (xfs_project_cmd strid dir))) ''failed to xfs_quota'',
             [xfs_project_cmd strid dir]))"

text \<open>
  The results are the identifier, the error, the driver afterwards and the commands run;
  \<open>None\<close> when the allocator never returns.
\<close>

definition SetSubtree ::
  "env \<Rightarrow> string \<Rightarrow> u32 \<Rightarrow> PrjQuotaDriver \<Rightarrow>
     (u32 \<times> error option \<times> PrjQuotaDriver \<times> string list list) option" where
  "SetSubtree E dir qid q =
     (if qid = 0 then
        (case GetQuotaIDInFileAttr E dir of (id', c0) \<Rightarrow>
           if id' > 0 then Some (id', None, q, c0)
           else
             (case GetNextQuotaID E q of
                None \<Rightarrow> None
              | Some (id', Some err, q') \<Rightarrow>
                  Some (0, Wrapf (Some err) ''failed to get file quota id'', q', c0)
              | Some (id', None, q') \<Rightarrow>
                  (case tag_subtree E dir id' of (r, err, c) \<Rightarrow> Some (r, err, q', c0 @ c))))
      else (case tag_subtree E dir qid of (r, err, c) \<Rightarrow> Some (r, err, q, c)))"

definition SetQuotaIDInFileAttr :: "env \<Rightarrow> string \<Rightarrow> u32 \<Rightarrow> error option \<times> string list list" where
  "SetQuotaIDInFileAttr E dir quotaID =
     (let strid = FormatUint (unat quotaID) in
      case getMountpointFstype E dir of
        (_, fstype, Some err) \<Rightarrow> (Wrapf (Some err) ''failed to get fs type'', [])
      | (_, fstype, None) \<Rightarrow>
          if fstype \<noteq> xfsFS then
            (Wrapf (run_err (exec_Run E (chattr_cmd strid dir))) ''failed to chattr'',
             [chattr_cmd strid dir])
          else
            (Wrapf (run_err (exec_Run E (xfs_project_cmd strid dir))) ''failed to xfs_quota'',
             [xfs_project_cmd strid dir]))"

definition chattr_recursive_cmd :: "string \<Rightarrow> string \<Rightarrow> string list" where
  "chattr_recursive_cmd strID dir = [''chattr'', ''-R'', ''-p'', strID, ''+P'', dir]"

definition SetFileAttrRecursive ::
  "env \<Rightarrow> string \<Rightarrow> u32 \<Rightarrow> error option \<times> string list list" where
  "SetFileAttrRecursive E dir quotaID =
     (let strID = FormatUint (unat quotaID) in
      (Wrapf (run_err (exec_Run E (chattr_recursive_cmd strID dir)))
         ''failed to set file quota id by recursively'',
       [chattr_recursive_cmd strID dir]))"

subsection \<open>setQuota\<close>

definition setquota_cmd :: "string \<Rightarrow> string \<Rightarrow> string \<Rightarrow> string list" where
  "setquota_cmd quotaIDStr blockLimitStr mountPoint =
     [''setquota'', ''-P'', quotaIDStr, ''0'', blockLimitStr, ''0'', ''0'', mountPoint]"

definition xfs_limit_cmd :: "string \<Rightarrow> string \<Rightarrow> string \<Rightarrow> string list" where
  "xfs_limit_cmd quotaIDStr blockLimitStr mountPoint =
     [''xfs_quota'', ''-x'', ''-c'',
      ''limit -p bhard='' @ blockLimitStr @ ''k '' @ quotaIDStr, mountPoint]"

definition setQuota ::
  "env \<Rightarrow> u32 \<Rightarrow> u64 \<Rightarrow> string \<Rightarrow> error option \<times> string list list" where
  "setQuota E quotaID blockLimit mountPoint =
     (let quotaIDStr = FormatUint (unat quotaID);
          blockLimitStr = FormatUint (unat blockLimit)
      in case getMountpointFstype E mountPoint of
        (_, fstype, Some err) \<Rightarrow> (Wrapf (Some err) ''failed to get fs type'', [])
      | (_, fstype, None) \<Rightarrow>
          if fstype \<noteq> xfsFS then
            (Wrapf (run_err (exec_Run E (setquota_cmd quotaIDStr blockLimitStr mountPoint)))
               ''failed to set quota'',
             [setquota_cmd quotaIDStr blockLimitStr mountPoint])
          else
            (Wrapf (run_err (exec_Run E (xfs_limit_cmd quotaIDStr blockLimitStr mountPoint)))
               ''failed to set quota'',
             [xfs_limit_cmd quotaIDStr blockLimitStr mountPoint]))"

subsection \<open>SetDiskQuota\<close>

text \<open>
  The results are the error, the driver afterwards and the commands run; \<open>None\<close> when
  the allocator never returns. \<open>limit*1024\<close> is a \<open>uint64\<close> product and wraps.
\<close>

definition SetDiskQuota ::
  "env \<Rightarrow> string \<Rightarrow> string \<Rightarrow> u32 \<Rightarrow> PrjQuotaDriver \<Rightarrow>
     (error option \<times> PrjQuotaDriver \<times> string list list) option" where
  "SetDiskQuota E dir sz quotaID q =
     (case EnforceQuota E dir q of
        (mountPoint, Some err, q1, c1) \<Rightarrow>
          Some (Wrapf (Some err) ''failed to enforce quota'', q1, c1)
      | (mountPoint, None, q1, c1) \<Rightarrow>
          if length mountPoint = 0
          then Some (Some (Errorf ''failed to find mountpoint''), q1, c1)
          else
     (case ToKilobytes E sz of
        (limit, Some err) \<Rightarrow>
          Some (Wrapf (Some err) ''failed to change size to kilobytes'', q1, c1)
      | (limit, None) \<Rightarrow>
     (case checkDevLimit E dir (limit * 1024) of
        Some err \<Rightarrow> Some (Wrapf (Some err) ''failed to check device limit'', q1, c1)
      | None \<Rightarrow>
     (case SetSubtree E dir quotaID q1 of
        None \<Rightarrow> None
      | Some (id', Some err, q2, c2) \<Rightarrow>
          Some (Wrapf (Some err) ''failed to set subtree'', q2, c1 @ c2)
      | Some (id', None, q2, c2) \<Rightarrow>
          if id' = 0
          then Some (Some (Errorf ''failed to find quota id to set subtree''), q2, c1 @ c2)
          else (case setQuota E id' limit mountPoint of
                  (err, c3) \<Rightarrow> Some (err, q2, c1 @ c2 @ c3))))))"

subsection \<open>Mount-table entries, for stating what CheckMountpoint selects\<close>

text \<open>
  A line of the mount table matches a device when it has six fields separated by single
  blanks, its third field is one of the three filesystem kinds and \<open>getDevID\<close> of its
  second field, the mountpoint, is the device.
\<close>

definition mountpoint_of :: "string \<Rightarrow> string" where
  "mountpoint_of line = Split line CHR '' '' ! 1"

definition options_of :: "string \<Rightarrow> string list" where
  "options_of line = Split (Split line CHR '' '' ! 3) CHR '',''"

definition is_match :: "env \<Rightarrow> u64 \<Rightarrow> string \<Rightarrow> bool" where
  "is_match E devID line =
     (length (Split line CHR '' '') = 6
      \<and> (Split line CHR '' '' ! 2 = xfsFS \<or> Split line CHR '' '' ! 2 = ext3FS
           \<or> Split line CHR '' '' ! 2 = ext4FS)
      \<and> fst (getDevID E (mountpoint_of line)) = devID)"

definition matches :: "env \<Rightarrow> u64 \<Rightarrow> string \<Rightarrow> string list" where
  "matches E devID output = filter (is_match E devID) (Split output (CHR 0x0A))"

text \<open>
  The mountpoints the loop can end with, when it starts with \<open>mp\<close> selected and has the
  lines \<open>ls\<close> to read: \<open>mp\<close>, unless it is empty, and the mountpoints of the matches.
\<close>

definition candidates :: "env \<Rightarrow> u64 \<Rightarrow> string \<Rightarrow> string list \<Rightarrow> string set" where
  "candidates E d mp ls =
     (if mp = [] then {} else {mp}) \<union> mountpoint_of ` {l \<in> set ls. is_match E d l}"

text \<open>
  The lines that can raise the flag, when the loop starts with \<open>mp\<close> selected and has
  the lines \<open>ls\<close> to read: a matching line with prjquota among its options whose
  mountpoint is no longer than \<open>mp\<close> (unless \<open>mp\<close> is empty) and no longer than the
  mountpoint of any matching line before it.
\<close>

definition raises :: "env \<Rightarrow> u64 \<Rightarrow> string \<Rightarrow> string list \<Rightarrow> bool" where
  "raises E d mp ls =
     (\<exists>before l after. ls = before @ l # after
        \<and> is_match E d l \<and> ''prjquota'' \<in> set (options_of l)
        \<and> (mp \<noteq> [] \<longrightarrow> length (mountpoint_of l) \<le> length mp)
        \<and> (\<forall>m\<in>set before. is_match E d m \<longrightarrow>
              length (mountpoint_of l) \<le> length (mountpoint_of m)))"

subsection \<open>Sequences of calls on one driver\<close>

datatype call =
  CallEnforceQuota env string
| CallGetNextQuotaID env
| CallSetSubtree env string u32
| CallSetDiskQuota env string string u32

text \<open>The driver after one call; \<open>None\<close> when the call never returns.\<close>

fun driver_after :: "call \<Rightarrow> PrjQuotaDriver \<Rightarrow> PrjQuotaDriver option" where
  "driver_after (CallEnforceQuota E dir) q = Some (fst (snd (snd (EnforceQuota E dir q))))"
| "driver_after (CallGetNextQuotaID E) q = map_option (\<lambda>r. snd (snd r)) (GetNextQuotaID E q)"
| "driver_after (CallSetSubtree E dir qid) q =
     map_option (\<lambda>r. fst (snd (snd r))) (SetSubtree E dir qid q)"
| "driver_after (CallSetDiskQuota E dir sz qid) q =
     map_option (\<lambda>r. fst (snd r)) (SetDiskQuota E dir sz qid q)"

fun driver_after_all :: "call list \<Rightarrow> PrjQuotaDriver \<Rightarrow> PrjQuotaDriver option" where
  "driver_after_all [] q = Some q"
| "driver_after_all (c # cs) q =
     (case driver_after c q of None \<Rightarrow> None | Some q' \<Rightarrow> driver_after_all cs q')"

subsection \<open>Sample machines\<close>

text \<open>
  The scenario of the spec: the directory /data/c1 on device 42, whose filesystem is
  mounted at /home/pouch as ext4 without the prjquota option; every command succeeds.
\<close>

definition env0 :: env where
  "env0 =
     \<lparr> getDevID = (\<lambda>p. if p = ''/data/c1'' \<or> p = ''/home/pouch'' then (42, None)
                        else (0, Some (Extern ''no such file or directory''))),
       setDevLimit = (\<lambda>d dev. (1000000, None)),
       checkDevLimit = (\<lambda>d l. None),
       getMountpointFstype = (\<lambda>d. (''/home/pouch'', ''ext4'', None)),
       loadQuotaIDs = (\<lambda>opt. ({}, 16777216, None)),
       QuotaMinID = 16777216,
       ReadFile_procMountFile =
         (''/dev/sdb1 /home/pouch ext4 rw,relatime,data=ordered 0 0'' @ [CHR 0x0A], None),
       exec_Run = (\<lambda>args. (0, [], [], None)),
       ToKilobytes = (\<lambda>s. (10485760, None)),
       path_Dir = (\<lambda>p. ''/data'') \<rparr>"

text \<open>A driver that has not been used yet.\<close>

definition q0 :: PrjQuotaDriver where
  "q0 = \<lparr> quotaIDs = {}, mountPoints = Map.empty, lastID = 0 \<rparr>"

text \<open>The same machine with an xfs filesystem.\<close>

definition env_xfs :: env where
  "env_xfs = env0\<lparr> getMountpointFstype := (\<lambda>d. (''/home/pouch'', ''xfs'', None)) \<rparr>"

text \<open>The same machine where \<open>lsattr\<close> shows /data/c1 tagged with 16777256.\<close>

definition env_tagged :: env where
  "env_tagged = env0\<lparr> exec_Run := (\<lambda>args.
      if args = [''lsattr'', ''-p'', ''/data'']
      then (0, ''16777256 --------------e---P /data/c1'' @ [CHR 0x0A], [], None)
      else (0, [], [], None)) \<rparr>"

text \<open>The same machine where \<open>quotaon\<close> fails because quota is on already.\<close>

definition env_exists :: env where
  "env_exists = env0\<lparr> exec_Run := (\<lambda>args.
      if args = [''quotaon'', ''-P'', ''/home/pouch'']
      then (2, [], ''quotaon: using /home/pouch/aquota.project: File exists'',
            Some (Extern ''exit status 2''))
      else (0, [], [], None)) \<rparr>"

text \<open>The same machine where \<open>quotaon\<close> fails for another reason.\<close>

definition env_quotaon_fails :: env where
  "env_quotaon_fails = env0\<lparr> exec_Run := (\<lambda>args.
      if args = [''quotaon'', ''-P'', ''/home/pouch'']
      then (1, [], ''quotaon: cannot find quota file'', Some (Extern ''exit status 1''))
      else (0, [], [], None)) \<rparr>"

text \<open>The same machine where the requested size is over the budget of the device.\<close>

definition env_over_budget :: env where
  "env_over_budget =
     env0\<lparr> checkDevLimit := (\<lambda>d l. Some (Extern ''dir quota limit is over device limit'')) \<rparr>"

text \<open>The same machine where the device-limit pre-check of \<open>EnforceQuota\<close> fails.\<close>

definition env_no_limit :: env where
  "env_no_limit =
     env0\<lparr> setDevLimit := (\<lambda>d dev. (0, Some (Extern ''failed to statfs''))) \<rparr>"

text \<open>A machine whose quota listing holds the largest 32-bit identifier.\<close>

definition env_full :: env where
  "env_full = env0\<lparr> loadQuotaIDs := (\<lambda>opt. ({4294967295}, 4294967295, None)) \<rparr>"

text \<open>
  Device 42 is mounted twice (a bind mount): at /home/pouch with prjquota and, later in
  the table, at /a without it.
\<close>

definition env_bind :: env where
  "env_bind = env0\<lparr>
      getDevID := (\<lambda>p. if p = ''/data/c1'' \<or> p = ''/home/pouch'' \<or> p = ''/a'' then (42, None)
                         else (0, Some (Extern ''no such file or directory''))),
      ReadFile_procMountFile :=
        (''/dev/sdb1 /home/pouch ext4 rw,prjquota 0 0'' @ [CHR 0x0A] @
         ''/dev/sdb1 /a ext4 rw,relatime 0 0'' @ [CHR 0x0A], None) \<rparr>"

text \<open>
  The bind mount the other way round: the mount at /a comes first, and only the longer
  mountpoint /home/pouch, later in the table, carries prjquota.
\<close>

definition env_bind_late :: env where
  "env_bind_late = env0\<lparr>
      getDevID := (\<lambda>p. if p = ''/data/c1'' \<or> p = ''/home/pouch'' \<or> p = ''/a'' then (42, None)
                         else (0, Some (Extern ''no such file or directory''))),
      ReadFile_procMountFile :=
        (''/dev/sdb1 /a ext4 rw,relatime 0 0'' @ [CHR 0x0A] @
         ''/dev/sdb1 /home/pouch ext4 rw,prjquota 0 0'' @ [CHR 0x0A], None) \<rparr>"

section \<open>Properties\<close>

subsection \<open>Decimal strings\<close>

text \<open>\<open>FormatUint\<close> writes the number that the digit loop of \<open>Atoi\<close> reads back.\<close>

lemma of_char_digit_char:
  assumes "d < 10"
  shows "(of_char (digit_char d) :: nat) = 48 + d"
proof -
  from assms have "d \<in> {0, 1, 2, 3, 4, 5, 6, 7, 8, 9}" by auto
  then show ?thesis by (auto simp: digit_char_def)
qed

lemma digits_value_append:
  "digits_value acc (xs @ [c]) = 10 * digits_value acc xs + ((of_char c :: nat) - 48)"
  by (induction xs arbitrary: acc) simp_all

lemma digits_value_FormatUint: "digits_value 0 (FormatUint n) = n"
proof (induction n rule: FormatUint.induct)
  case (1 n)
  show ?case
  proof (cases "n < 10")
    case True
    then show ?thesis by (subst FormatUint.simps) (simp add: of_char_digit_char)
  next
    case False
    with 1 have "digits_value 0 (FormatUint (n div 10)) = n div 10" by simp
    with False show ?thesis
      by (subst FormatUint.simps) (simp add: digits_value_append of_char_digit_char)
  qed
qed

subsection \<open>The sample machine\<close>

lemma env0_fields:
  "getDevID env0 ''/data/c1'' = (42, None)"
  "getDevID env0 ''/home/pouch'' = (42, None)"
  "setDevLimit env0 d dev = (1000000, None)"
  "getMountpointFstype env0 d = (''/home/pouch'', ''ext4'', None)"
  "exec_Run env0 args = (0, [], [], None)"
  "ReadFile_procMountFile env0 =
    (''/dev/sdb1 /home/pouch ext4 rw,relatime,data=ordered 0 0'' @ [CHR 0x0A], None)"
  by (simp_all add: env0_def)

lemma CheckMountpoint_env0: "CheckMountpoint env0 42 = (''/home/pouch'', False, ''ext4'')"
  by (simp add: CheckMountpoint_def env0_fields mount_line_def xfsFS_def ext3FS_def ext4FS_def)

lemma EnforceQuota_env0: "EnforceQuota env0 ''/data/c1'' q0 =
    (''/home/pouch'', None, q0\<lparr>mountPoints := [42 \<mapsto> ''/home/pouch'']\<rparr>,
     [[''mount'', ''-o'', ''remount,prjquota'', ''/home/pouch''], [''quotaon'', ''-P'', ''/home/pouch'']])"
  by (simp add: EnforceQuota_def CheckMountpoint_env0 env0_fields remount_cmd_def quotaon_cmd_def
      run_err_def xfsFS_def q0_def)

lemma env_no_limit_fields:
  "getDevID env_no_limit ''/data/c1'' = (42, None)"
  "setDevLimit env_no_limit d dev = (0, Some (Extern ''failed to statfs''))"
  by (simp_all add: env_no_limit_def env0_def)

lemma env_exists_fields:
  "getDevID env_exists ''/data/c1'' = (42, None)"
  "setDevLimit env_exists d dev = (1000000, None)"
  "getMountpointFstype env_exists d = (''/home/pouch'', ''ext4'', None)"
  "exec_Run env_exists [''quotaon'', ''-P'', ''/home/pouch''] =
     (2, [], ''quotaon: using /home/pouch/aquota.project: File exists'',
      Some (Extern ''exit status 2''))"
  "exec_Run env_exists [''mount'', ''-o'', ''remount,prjquota'', ''/home/pouch''] =
     (0, [], [], None)"
  "ReadFile_procMountFile env_exists = ReadFile_procMountFile env0"
  "getDevID env_exists ''/home/pouch'' = (42, None)"
  by (simp_all add: env_exists_def env0_def)

lemma CheckMountpoint_env_exists:
  "CheckMountpoint env_exists 42 = (''/home/pouch'', False, ''ext4'')"
  by (simp add: CheckMountpoint_def env_exists_fields env0_fields mount_line_def
      xfsFS_def ext3FS_def ext4FS_def)

lemma env_over_budget_fields:
  "getDevID env_over_budget ''/data/c1'' = (42, None)"
  "getDevID env_over_budget ''/home/pouch'' = (42, None)"
  "setDevLimit env_over_budget d dev = (1000000, None)"
  "getMountpointFstype env_over_budget d = (''/home/pouch'', ''ext4'', None)"
  "exec_Run env_over_budget args = (0, [], [], None)"
  "ReadFile_procMountFile env_over_budget = ReadFile_procMountFile env0"
  "ToKilobytes env_over_budget s = (10485760, None)"
  "checkDevLimit env_over_budget d l = Some (Extern ''dir quota limit is over device limit'')"
  by (simp_all add: env_over_budget_def env0_def)

lemma CheckMountpoint_env_over_budget:
  "CheckMountpoint env_over_budget 42 = (''/home/pouch'', False, ''ext4'')"
  by (simp add: CheckMountpoint_def env_over_budget_fields env0_fields mount_line_def
      xfsFS_def ext3FS_def ext4FS_def)

lemma EnforceQuota_env_over_budget:
  "EnforceQuota env_over_budget ''/data/c1'' q0 =
    (''/home/pouch'', None, q0\<lparr>mountPoints := [42 \<mapsto> ''/home/pouch'']\<rparr>,
     [[''mount'', ''-o'', ''remount,prjquota'', ''/home/pouch''],
      [''quotaon'', ''-P'', ''/home/pouch'']])"
  by (simp add: EnforceQuota_def CheckMountpoint_env_over_budget env_over_budget_fields
      remount_cmd_def quotaon_cmd_def run_err_def xfsFS_def q0_def)

lemma env_quotaon_fails_fields:
  "getDevID env_quotaon_fails ''/data/c1'' = (42, None)"
  "getDevID env_quotaon_fails ''/home/pouch'' = (42, None)"
  "setDevLimit env_quotaon_fails d dev = (1000000, None)"
  "getMountpointFstype env_quotaon_fails d = (''/home/pouch'', ''ext4'', None)"
  "exec_Run env_quotaon_fails [''quotaon'', ''-P'', ''/home/pouch''] =
     (1, [], ''quotaon: cannot find quota file'', Some (Extern ''exit status 1''))"
  "exec_Run env_quotaon_fails [''mount'', ''-o'', ''remount,prjquota'', ''/home/pouch''] =
     (0, [], [], None)"
  "ReadFile_procMountFile env_quotaon_fails = ReadFile_procMountFile env0"
  by (simp_all add: env_quotaon_fails_def env0_def)

lemma CheckMountpoint_env_quotaon_fails:
  "CheckMountpoint env_quotaon_fails 42 = (''/home/pouch'', False, ''ext4'')"
  by (simp add: CheckMountpoint_def env_quotaon_fails_fields env0_fields mount_line_def
      xfsFS_def ext3FS_def ext4FS_def)

lemma env_bind_fields:
  "getDevID env_bind ''/home/pouch'' = (42, None)"
  "getDevID env_bind ''/a'' = (42, None)"
  "ReadFile_procMountFile env_bind =
     (''/dev/sdb1 /home/pouch ext4 rw,prjquota 0 0'' @ [CHR 0x0A] @
      ''/dev/sdb1 /a ext4 rw,relatime 0 0'' @ [CHR 0x0A], None)"
  by (simp_all add: env_bind_def env0_def)

lemma matches_env_bind:
  "matches env_bind 42 (''/dev/sdb1 /home/pouch ext4 rw,prjquota 0 0'' @ [CHR 0x0A] @
      ''/dev/sdb1 /a ext4 rw,relatime 0 0'' @ [CHR 0x0A]) =
   [''/dev/sdb1 /home/pouch ext4 rw,prjquota 0 0'', ''/dev/sdb1 /a ext4 rw,relatime 0 0'']"
  by (simp add: matches_def is_match_def mountpoint_of_def env_bind_fields
      xfsFS_def ext3FS_def ext4FS_def)

lemma CheckMountpoint_env_bind: "CheckMountpoint env_bind 42 = (''/a'', True, ''ext4'')"
  by (simp add: CheckMountpoint_def env_bind_fields mount_line_def xfsFS_def ext3FS_def ext4FS_def)

lemma env_bind_late_fields:
  "getDevID env_bind_late ''/home/pouch'' = (42, None)"
  "getDevID env_bind_late ''/a'' = (42, None)"
  "getDevID env_bind_late [] = (0, Some (Extern ''no such file or directory''))"
  "ReadFile_procMountFile env_bind_late =
     (''/dev/sdb1 /a ext4 rw,relatime 0 0'' @ [CHR 0x0A] @
      ''/dev/sdb1 /home/pouch ext4 rw,prjquota 0 0'' @ [CHR 0x0A], None)"
  by (simp_all add: env_bind_late_def env0_def)

lemma CheckMountpoint_env_bind_late:
  "CheckMountpoint env_bind_late 42 = (''/a'', False, ''ext4'')"
  by (simp add: CheckMountpoint_def env_bind_late_fields mount_line_def
      xfsFS_def ext3FS_def ext4FS_def)

lemma Split_env_bind:
  "Split (''/dev/sdb1 /home/pouch ext4 rw,prjquota 0 0'' @ [CHR 0x0A] @
      ''/dev/sdb1 /a ext4 rw,relatime 0 0'' @ [CHR 0x0A]) (CHR 0x0A) =
   [''/dev/sdb1 /home/pouch ext4 rw,prjquota 0 0'', ''/dev/sdb1 /a ext4 rw,relatime 0 0'', []]"
  by simp

lemma Split_env_bind_late:
  "Split (''/dev/sdb1 /a ext4 rw,relatime 0 0'' @ [CHR 0x0A] @
      ''/dev/sdb1 /home/pouch ext4 rw,prjquota 0 0'' @ [CHR 0x0A]) (CHR 0x0A) =
   [''/dev/sdb1 /a ext4 rw,relatime 0 0'', ''/dev/sdb1 /home/pouch ext4 rw,prjquota 0 0'', []]"
  by simp

subsection \<open>The recursive binder\<close>

text \<open>
  C10. For every directory and quota identifier, \<open>SetFileAttrRecursive\<close> runs exactly
  the command \<open>chattr -R -p <id> +P <dir>\<close> and returns its error, whatever the
  environment says about the filesystem kind of the directory: it never runs
  \<open>xfs_quota\<close>. The non-recursive binder \<open>SetSubtree\<close>, given an identifier and a
  filesystem kind that resolves, dispatches on the kind: it runs
  \<open>chattr -p <id> +P <dir>\<close> on a kind other than xfs and
  \<open>xfs_quota -x -c 'project -s -p <dir> <id>'\<close> on xfs.
\<close>

theorem SetFileAttrRecursive_chattr:
  "SetFileAttrRecursive E dir quotaID =
     (Wrapf (run_err (exec_Run E [''chattr'', ''-R'', ''-p'', FormatUint (unat quotaID), ''+P'', dir]))
        ''failed to set file quota id by recursively'',
      [[''chattr'', ''-R'', ''-p'', FormatUint (unat quotaID), ''+P'', dir]])
   \<and> (quotaID \<noteq> 0 \<and> getMountpointFstype E dir = (m, fstype, None) \<longrightarrow>
        (\<exists>err. SetSubtree E dir quotaID q =
           Some (quotaID, err, q,
             [if fstype \<noteq> xfsFS
              then [''chattr'', ''-p'', FormatUint (unat quotaID), ''+P'', dir]
              else [''xfs_quota'', ''-x'', ''-c'',
                    ''project -s -p '' @ dir @ '' '' @ FormatUint (unat quotaID)]])))"
  by (simp add: SetFileAttrRecursive_def chattr_recursive_cmd_def SetSubtree_def
      tag_subtree_def xfs_project_cmd_def chattr_cmd_def Let_def)

theorem SetFileAttrRecursive_chattr_witness:
  "snd (SetFileAttrRecursive env_xfs ''/data/c1'' 7) =
     [[''chattr'', ''-R'', ''-p'', ''7'', ''+P'', ''/data/c1'']]
   \<and> (7::u32) \<noteq> 0 \<and> getMountpointFstype env_xfs ''/data/c1'' = (''/home/pouch'', ''xfs'', None)
   \<and> (\<exists>err. SetSubtree env_xfs ''/data/c1'' 7 q0 =
           Some (7, err, q0, [[''xfs_quota'', ''-x'', ''-c'', ''project -s -p /data/c1 7'']]))
   \<and> snd (SetFileAttrRecursive env0 ''/data/c1'' 7) =
     [[''chattr'', ''-R'', ''-p'', ''7'', ''+P'', ''/data/c1'']]
   \<and> getMountpointFstype env0 ''/data/c1'' = (''/home/pouch'', ''ext4'', None)
   \<and> (\<exists>err. SetSubtree env0 ''/data/c1'' 7 q0 =
           Some (7, err, q0, [[''chattr'', ''-p'', ''7'', ''+P'', ''/data/c1'']]))"
proof -
  have g: "getMountpointFstype env_xfs ''/data/c1'' = (''/home/pouch'', ''xfs'', None)"
    by (simp add: env_xfs_def env0_def)
  have g0: "getMountpointFstype env0 ''/data/c1'' = (''/home/pouch'', ''ext4'', None)"
    by (simp add: env0_def)
  have f: "FormatUint (unat (7::u32)) = ''7''"
    by (simp add: FormatUint.simps digit_char_def)
  from SetFileAttrRecursive_chattr [of env_xfs "''/data/c1''" 7 "''/home/pouch''" "''xfs''" q0]
    SetFileAttrRecursive_chattr [of env0 "''/data/c1''" 7 "''/home/pouch''" "''ext4''" q0]
    g g0 f
  show ?thesis by (simp add: xfsFS_def)
qed

subsection \<open>The limit setter\<close>

text \<open>
  C6, as the code has it. When the filesystem kind of the mountpoint resolves,
  \<open>setQuota\<close> runs one command. On a kind other than xfs it is
  \<open>setquota -P <id> 0 <limit> 0 0 <mountpoint>\<close>: the soft block limit is 0, the hard
  block limit is the requested limit, both inode limits are 0. On xfs it is
  \<open>xfs_quota -x -c 'limit -p bhard=<limit>k <id>' <mountpoint>\<close>: the hard block limit
  only.
\<close>

theorem setQuota_command:
  assumes "getMountpointFstype E mountPoint = (m, fstype, None)"
  shows "snd (setQuota E quotaID blockLimit mountPoint) =
     (if fstype \<noteq> xfsFS
      then [[''setquota'', ''-P'', FormatUint (unat quotaID), ''0'',
             FormatUint (unat blockLimit), ''0'', ''0'', mountPoint]]
      else [[''xfs_quota'', ''-x'', ''-c'',
             ''limit -p bhard='' @ FormatUint (unat blockLimit) @ ''k '' @
               FormatUint (unat quotaID), mountPoint]])"
  using assms
  by (simp add: setQuota_def setquota_cmd_def xfs_limit_cmd_def Let_def)

theorem setQuota_command_witness:
  "getMountpointFstype env0 ''/home/pouch'' = (''/home/pouch'', ''ext4'', None)
   \<and> snd (setQuota env0 5 100 ''/home/pouch'') =
       [[''setquota'', ''-P'', ''5'', ''0'', ''100'', ''0'', ''0'', ''/home/pouch'']]"
proof -
  have g: "getMountpointFstype env0 ''/home/pouch'' = (''/home/pouch'', ''ext4'', None)"
    by (simp add: env0_def)
  have f: "FormatUint (unat (5::u32)) = ''5''" "FormatUint (unat (100::u64)) = ''100''"
    by (simp_all add: FormatUint.simps digit_char_def)
  from setQuota_command [OF g, of 5 100] f g
  show ?thesis by (simp add: xfsFS_def)
qed

text \<open>
  The claim as written asks for a soft limit equal to the hard one. For identifier 5 and
  limit 100 on ext4 the soft limit handed to \<open>setquota\<close> is 0.
\<close>

theorem setQuota_soft_limit_counterexample:
  "snd (setQuota env0 5 100 ''/home/pouch'') =
       [[''setquota'', ''-P'', ''5'', ''0'', ''100'', ''0'', ''0'', ''/home/pouch'']]
   \<and> snd (setQuota env0 5 100 ''/home/pouch'') \<noteq>
       [[''setquota'', ''-P'', ''5'', ''100'', ''100'', ''0'', ''0'', ''/home/pouch'']]"
  by (simp add: setQuota_def setquota_cmd_def env0_def xfsFS_def FormatUint.simps digit_char_def)

subsection \<open>Re-binding a tagged directory\<close>

text \<open>
  C9. When \<open>SetSubtree\<close> is called with identifier 0 and \<open>GetQuotaIDInFileAttr\<close> reports
  a nonzero identifier for the directory, \<open>SetSubtree\<close> returns that identifier with no
  error. The driver is unchanged, so the allocator has not run, and the only command is
  the \<open>lsattr\<close> of the tag reader: no tagging command.
\<close>

theorem SetSubtree_reuses_tag:
  assumes "fst (GetQuotaIDInFileAttr E dir) \<noteq> 0"
  shows "SetSubtree E dir 0 q =
           Some (fst (GetQuotaIDInFileAttr E dir), None, q, [[''lsattr'', ''-p'', path_Dir E dir]])"
proof -
  obtain id' c0 where g: "GetQuotaIDInFileAttr E dir = (id', c0)"
    by (cases "GetQuotaIDInFileAttr E dir")
  have c0: "c0 = [[''lsattr'', ''-p'', path_Dir E dir]]"
    using g by (auto simp: GetQuotaIDInFileAttr_def Let_def lsattr_cmd_def split: if_splits)
  from assms g have "id' \<noteq> 0" by simp
  then have "id' > 0" by (simp add: word_greater_zero_iff)
  with g c0 show ?thesis by (simp add: SetSubtree_def)
qed

theorem SetSubtree_reuses_tag_witness:
  "fst (GetQuotaIDInFileAttr env_tagged ''/data/c1'') \<noteq> 0
   \<and> SetSubtree env_tagged ''/data/c1'' 0 q0 =
        Some (16777256, None, q0, [[''lsattr'', ''-p'', ''/data'']])"
proof -
  have t: "GetQuotaIDInFileAttr env_tagged ''/data/c1'' =
             (16777256, [[''lsattr'', ''-p'', ''/data'']])"
    by (simp add: GetQuotaIDInFileAttr_def env_tagged_def env0_def lsattr_cmd_def run_err_def
      run_stdout_def Atoi_def is_digit_def Let_def)
  have p: "path_Dir env_tagged ''/data/c1'' = ''/data''"
    by (simp add: env_tagged_def env0_def)
  have h: "fst (GetQuotaIDInFileAttr env_tagged ''/data/c1'') \<noteq> 0"
    by (simp add: t)
  from SetSubtree_reuses_tag [OF h, of q0] t p h show ?thesis by simp
qed

subsection \<open>The enablement cache\<close>

text \<open>
  What \<open>EnforceQuota\<close> does to the map of mountpoints: a call that finds the device in
  the map returns the entry; a call that returns no error leaves an entry for the device;
  an entry, once present, is never changed by any method of the driver.
\<close>

lemma EnforceQuota_cached:
  assumes "getDevID E dir = (devID, None)" "snd (setDevLimit E dir devID) = None"
    "mountPoints q devID = Some mp"
  shows "EnforceQuota E dir q = (mp, None, q, [])"
  using assms by (simp add: EnforceQuota_def)

lemma EnforceQuota_cached_quiet:
  assumes "mountPoints q (fst (getDevID E dir)) = Some mp"
  shows "snd (snd (snd (EnforceQuota E dir q))) = []"
proof -
  obtain devID e where g: "getDevID E dir = (devID, e)" by (cases "getDevID E dir")
  show ?thesis
  proof (cases e)
    case (Some err)
    with g show ?thesis by (simp add: EnforceQuota_def)
  next
    case None
    show ?thesis
    proof (cases "snd (setDevLimit E dir devID)")
      case (Some err)
      with g None show ?thesis by (simp add: EnforceQuota_def)
    next
      case n: None
      from assms g have "mountPoints q devID = Some mp" by simp
      with g None n show ?thesis by (simp add: EnforceQuota_def)
    qed
  qed
qed

lemma EnforceQuota_records:
  assumes "EnforceQuota E dir q = (mp, None, q', c)"
  shows "mountPoints q' (fst (getDevID E dir)) = Some mp"
  using assms
  apply (simp add: EnforceQuota_def Let_def split: prod.splits option.splits if_splits)
  apply auto
  done

lemma EnforceQuota_keeps:
  assumes "EnforceQuota E dir q = (m, e, q', c)" "mountPoints q d = Some mp"
  shows "mountPoints q' d = Some mp"
  using assms
  apply (simp add: EnforceQuota_def Let_def split: prod.splits option.splits if_splits)
  apply auto
  done

lemma EnforceQuota_commands:
  assumes "EnforceQuota E dir q = (mp, None, q', c)" "mp \<noteq> []"
  shows "\<forall>cmd\<in>set c. cmd = remount_cmd mp \<or> cmd = quotaon_cmd mp"
  using assms
  apply (simp add: EnforceQuota_def Let_def split: prod.splits option.splits if_splits)
  apply auto
  done

lemma GetNextQuotaID_mountPoints:
  assumes "GetNextQuotaID E q = Some (r, e, q')"
  shows "mountPoints q' = mountPoints q"
  using assms
  by (auto simp: GetNextQuotaID_def reload_def split: prod.splits option.splits if_splits)

lemma SetSubtree_mountPoints:
  assumes "SetSubtree E dir qid q = Some (r, e, q', c)"
  shows "mountPoints q' = mountPoints q"
  using assms
  by (auto simp: SetSubtree_def dest: GetNextQuotaID_mountPoints
      split: prod.splits option.splits if_splits)

lemma SetDiskQuota_keeps:
  assumes "SetDiskQuota E dir sz qid q = Some (e, q', c)" "mountPoints q d = Some mp"
  shows "mountPoints q' d = Some mp"
proof -
  obtain m e1 q1 c1 where eq: "EnforceQuota E dir q = (m, e1, q1, c1)"
    by (cases "EnforceQuota E dir q")
  from EnforceQuota_keeps [OF eq assms(2)]
  have k: "mountPoints q1 d = Some mp" .
  from assms(1) eq have "q' = q1 \<or> (\<exists>r e2 c2. SetSubtree E dir qid q1 = Some (r, e2, q', c2))"
    by (auto simp: SetDiskQuota_def split: prod.splits option.splits if_splits)
  with k show ?thesis by (auto dest: SetSubtree_mountPoints)
qed

lemma driver_after_keeps:
  assumes "driver_after c q = Some q'" "mountPoints q d = Some mp"
  shows "mountPoints q' d = Some mp"
proof (cases c)
  case (CallEnforceQuota E dir)
  obtain m e1 q1 c1 where eq: "EnforceQuota E dir q = (m, e1, q1, c1)"
    by (cases "EnforceQuota E dir q")
  from EnforceQuota_keeps [OF eq assms(2)] eq assms(1) CallEnforceQuota
  show ?thesis by simp
next
  case (CallGetNextQuotaID E)
  with assms show ?thesis by (auto dest: GetNextQuotaID_mountPoints)
next
  case (CallSetSubtree E dir qid)
  with assms show ?thesis by (auto dest: SetSubtree_mountPoints)
next
  case (CallSetDiskQuota E dir sz qid)
  with assms show ?thesis by (auto dest: SetDiskQuota_keeps)
qed

lemma driver_after_all_keeps:
  assumes "driver_after_all cs q = Some q'" "mountPoints q d = Some mp"
  shows "mountPoints q' d = Some mp"
  using assms
proof (induction cs arbitrary: q)
  case Nil
  then show ?case by simp
next
  case (Cons c cs)
  then obtain q1 where s: "driver_after c q = Some q1" "driver_after_all cs q1 = Some q'"
    by (auto split: option.splits)
  from driver_after_keeps [OF s(1) Cons.prems(2)]
  have "mountPoints q1 d = Some mp" .
  from Cons.IH [OF s(2) this] show ?case .
qed

text \<open>
  C4, as the code has it. Once \<open>EnforceQuota\<close> has returned without error for a
  directory, then after any further calls of the driver's methods, a call of
  \<open>EnforceQuota\<close> for a directory on the same device runs no command; and when its
  pre-checks pass (\<open>getDevID\<close> and \<open>setDevLimit\<close> report no error) it returns the same
  mountpoint without error and leaves the driver unchanged.
\<close>

theorem EnforceQuota_idempotent:
  assumes "EnforceQuota E dir q = (mp, None, q1, c)"
    and "driver_after_all cs q1 = Some q2"
    and "fst (getDevID E' dir') = fst (getDevID E dir)"
  shows "snd (snd (snd (EnforceQuota E' dir' q2))) = []
       \<and> (snd (getDevID E' dir') = None \<and> snd (setDevLimit E' dir' (fst (getDevID E dir))) = None
            \<longrightarrow> EnforceQuota E' dir' q2 = (mp, None, q2, []))"
proof -
  from EnforceQuota_records [OF assms(1)]
  have "mountPoints q1 (fst (getDevID E dir)) = Some mp" .
  from driver_after_all_keeps [OF assms(2) this]
  have m: "mountPoints q2 (fst (getDevID E dir)) = Some mp" .
  with assms(3) have "mountPoints q2 (fst (getDevID E' dir')) = Some mp" by simp
  from EnforceQuota_cached_quiet [OF this]
  have quiet: "snd (snd (snd (EnforceQuota E' dir' q2))) = []" .
  have "EnforceQuota E' dir' q2 = (mp, None, q2, [])"
    if "snd (getDevID E' dir') = None"
      and l: "snd (setDevLimit E' dir' (fst (getDevID E dir))) = None"
  proof -
    from that(1) assms(3) have "getDevID E' dir' = (fst (getDevID E dir), None)"
      by (simp add: prod_eq_iff)
    from EnforceQuota_cached [OF this l m] show ?thesis .
  qed
  with quiet show ?thesis by simp
qed

theorem EnforceQuota_idempotent_witness:
  "EnforceQuota env0 ''/data/c1'' q0 =
     (''/home/pouch'', None, q0\<lparr>mountPoints := [42 \<mapsto> ''/home/pouch'']\<rparr>,
      [[''mount'', ''-o'', ''remount,prjquota'', ''/home/pouch''],
       [''quotaon'', ''-P'', ''/home/pouch'']])
   \<and> driver_after_all [CallEnforceQuota env0 ''/home/pouch'']
        (q0\<lparr>mountPoints := [42 \<mapsto> ''/home/pouch'']\<rparr>) =
        Some (q0\<lparr>mountPoints := [42 \<mapsto> ''/home/pouch'']\<rparr>)
   \<and> fst (getDevID env0 ''/home/pouch'') = fst (getDevID env0 ''/data/c1'')
   \<and> snd (getDevID env0 ''/home/pouch'') = None
   \<and> snd (setDevLimit env0 ''/home/pouch'' (fst (getDevID env0 ''/data/c1''))) = None
   \<and> EnforceQuota env0 ''/home/pouch'' (q0\<lparr>mountPoints := [42 \<mapsto> ''/home/pouch'']\<rparr>) =
       (''/home/pouch'', None, q0\<lparr>mountPoints := [42 \<mapsto> ''/home/pouch'']\<rparr>, [])"
proof -
  let ?q1 = "q0\<lparr>mountPoints := [42 \<mapsto> ''/home/pouch'']\<rparr>"
  have a: "driver_after_all [CallEnforceQuota env0 ''/home/pouch''] ?q1 = Some ?q1"
    by (simp add: EnforceQuota_def env0_fields)
  have b: "fst (getDevID env0 ''/home/pouch'') = fst (getDevID env0 ''/data/c1'')"
    by (simp add: env0_fields)
  have c: "snd (getDevID env0 ''/home/pouch'') = None"
    "snd (setDevLimit env0 ''/home/pouch'' (fst (getDevID env0 ''/data/c1''))) = None"
    by (simp_all add: env0_fields)
  from EnforceQuota_idempotent [OF EnforceQuota_env0 a b] EnforceQuota_env0 a b c
  show ?thesis by simp
qed

text \<open>
  The claim as written promises the mountpoint to every later call for the device. The
  pre-check comes before the look-up in the map: when \<open>setDevLimit\<close> fails in the later
  call, the call returns the error and no mountpoint.
\<close>

theorem EnforceQuota_precheck_counterexample:
  "EnforceQuota env0 ''/data/c1'' q0 =
     (''/home/pouch'', None, q0\<lparr>mountPoints := [42 \<mapsto> ''/home/pouch'']\<rparr>,
      [[''mount'', ''-o'', ''remount,prjquota'', ''/home/pouch''],
       [''quotaon'', ''-P'', ''/home/pouch'']])
   \<and> getDevID env_no_limit ''/data/c1'' = getDevID env0 ''/data/c1''
   \<and> EnforceQuota env_no_limit ''/data/c1'' (q0\<lparr>mountPoints := [42 \<mapsto> ''/home/pouch'']\<rparr>) =
       ([], Some (Wrap (Extern ''failed to statfs'') ''failed to set device limit''),
        q0\<lparr>mountPoints := [42 \<mapsto> ''/home/pouch'']\<rparr>, [])"
  by (simp add: EnforceQuota_env0 env_no_limit_fields env0_fields)
     (simp add: EnforceQuota_def env_no_limit_fields)

subsection \<open>Activation that is on already\<close>

text \<open>
  C8. When \<open>EnforceQuota\<close> reaches \<open>quotaon\<close> (the device is known, the pre-check
  passes, the device is not in the map, a mountpoint is found, the remount was not needed
  or succeeded, the filesystem kind is known and is not xfs), and \<open>quotaon\<close> fails with
  a standard error output that contains \<open>File exists\<close> after a blank, \<open>EnforceQuota\<close>
  returns the mountpoint found with no error and stores it under the device in the map.
\<close>

theorem EnforceQuota_file_exists:
  assumes "getDevID E dir = (devID, None)"
    and "snd (setDevLimit E dir devID) = None"
    and "mountPoints q devID = None"
    and "CheckMountpoint E devID = (mountPoint, hasQuota, fsType)"
    and "mountPoint \<noteq> []"
    and "hasQuota \<or> run_err (exec_Run E [''mount'', ''-o'', ''remount,prjquota'', mountPoint]) = None"
    and "getMountpointFstype E dir = (m, fstype, None)"
    and "fstype \<noteq> xfsFS"
    and "exec_Run E [''quotaon'', ''-P'', mountPoint] = (exit, stdout, stderr, Some err2)"
    and "Contains stderr '' File exists''"
  shows "EnforceQuota E dir q =
     (mountPoint, None, q\<lparr>mountPoints := (mountPoints q)(devID \<mapsto> mountPoint)\<rparr>,
      (if hasQuota then [] else [[''mount'', ''-o'', ''remount,prjquota'', mountPoint]])
        @ [[''quotaon'', ''-P'', mountPoint]])"
  using assms
  by (auto simp: EnforceQuota_def Let_def remount_cmd_def quotaon_cmd_def run_err_def
      run_stderr_def)

theorem EnforceQuota_file_exists_witness:
  "getDevID env_exists ''/data/c1'' = (42, None)
   \<and> snd (setDevLimit env_exists ''/data/c1'' 42) = None
   \<and> mountPoints q0 42 = None
   \<and> CheckMountpoint env_exists 42 = (''/home/pouch'', False, ''ext4'')
   \<and> run_err (exec_Run env_exists [''mount'', ''-o'', ''remount,prjquota'', ''/home/pouch'']) = None
   \<and> getMountpointFstype env_exists ''/data/c1'' = (''/home/pouch'', ''ext4'', None)
   \<and> ''ext4'' \<noteq> xfsFS
   \<and> exec_Run env_exists [''quotaon'', ''-P'', ''/home/pouch''] =
        (2, [], ''quotaon: using /home/pouch/aquota.project: File exists'',
         Some (Extern ''exit status 2''))
   \<and> Contains ''quotaon: using /home/pouch/aquota.project: File exists'' '' File exists''
   \<and> EnforceQuota env_exists ''/data/c1'' q0 =
       (''/home/pouch'', None, q0\<lparr>mountPoints := [42 \<mapsto> ''/home/pouch'']\<rparr>,
        [[''mount'', ''-o'', ''remount,prjquota'', ''/home/pouch''],
         [''quotaon'', ''-P'', ''/home/pouch'']])"
proof -
  have a: "getDevID env_exists ''/data/c1'' = (42, None)"
    and b: "snd (setDevLimit env_exists ''/data/c1'' 42) = None"
    and c: "mountPoints q0 42 = None"
    and d: "''/home/pouch'' \<noteq> []"
    and e: "False \<or> run_err (exec_Run env_exists
               [''mount'', ''-o'', ''remount,prjquota'', ''/home/pouch'']) = None"
    and f: "getMountpointFstype env_exists ''/data/c1'' = (''/home/pouch'', ''ext4'', None)"
    and g: "''ext4'' \<noteq> xfsFS"
    and h: "exec_Run env_exists [''quotaon'', ''-P'', ''/home/pouch''] =
        (2, [], ''quotaon: using /home/pouch/aquota.project: File exists'',
         Some (Extern ''exit status 2''))"
    and i: "Contains ''quotaon: using /home/pouch/aquota.project: File exists'' '' File exists''"
    by (simp_all add: env_exists_fields q0_def run_err_def xfsFS_def)
  from EnforceQuota_file_exists [OF a b c CheckMountpoint_env_exists d e f g h i]
    a b c CheckMountpoint_env_exists e f g h i
  show ?thesis by (simp add: q0_def)
qed

subsection \<open>A size over the budget of the device\<close>

text \<open>
  C1, as the code has it. \<open>SetDiskQuota\<close> calls \<open>EnforceQuota\<close> first, then converts
  the size, then checks the capacity. When \<open>EnforceQuota\<close> has returned a mountpoint
  without error, the size converts and the capacity check fails, \<open>SetDiskQuota\<close> returns
  the error of the check, wrapped, and has run the commands of \<open>EnforceQuota\<close> and no
  other: each of them is the remount or the \<open>quotaon\<close> of that mountpoint, none is a
  tagging or a limit-setting command.
\<close>

theorem SetDiskQuota_over_budget:
  assumes "EnforceQuota E dir q = (mountPoint, None, q1, c1)"
    and "mountPoint \<noteq> []"
    and "ToKilobytes E sz = (limit, None)"
    and "checkDevLimit E dir (limit * 1024) = Some err"
  shows "SetDiskQuota E dir sz quotaID q =
           Some (Some (Wrap err ''failed to check device limit''), q1, c1)
         \<and> (\<forall>cmd\<in>set c1. cmd = [''mount'', ''-o'', ''remount,prjquota'', mountPoint]
                          \<or> cmd = [''quotaon'', ''-P'', mountPoint])"
proof -
  from assms have "SetDiskQuota E dir sz quotaID q =
           Some (Some (Wrap err ''failed to check device limit''), q1, c1)"
    by (simp add: SetDiskQuota_def)
  moreover from EnforceQuota_commands [OF assms(1) assms(2)]
  have "\<forall>cmd\<in>set c1. cmd = [''mount'', ''-o'', ''remount,prjquota'', mountPoint]
                          \<or> cmd = [''quotaon'', ''-P'', mountPoint]"
    by (simp add: remount_cmd_def quotaon_cmd_def)
  ultimately show ?thesis by simp
qed

theorem SetDiskQuota_over_budget_witness:
  "EnforceQuota env_over_budget ''/data/c1'' q0 =
    (''/home/pouch'', None, q0\<lparr>mountPoints := [42 \<mapsto> ''/home/pouch'']\<rparr>,
     [[''mount'', ''-o'', ''remount,prjquota'', ''/home/pouch''],
      [''quotaon'', ''-P'', ''/home/pouch'']])
   \<and> ToKilobytes env_over_budget ''10G'' = (10485760, None)
   \<and> checkDevLimit env_over_budget ''/data/c1'' (10485760 * 1024) =
        Some (Extern ''dir quota limit is over device limit'')
   \<and> SetDiskQuota env_over_budget ''/data/c1'' ''10G'' 0 q0 =
        Some (Some (Wrap (Extern ''dir quota limit is over device limit'')
                      ''failed to check device limit''),
              q0\<lparr>mountPoints := [42 \<mapsto> ''/home/pouch'']\<rparr>,
              [[''mount'', ''-o'', ''remount,prjquota'', ''/home/pouch''],
               [''quotaon'', ''-P'', ''/home/pouch'']])"
proof -
  have a: "''/home/pouch'' \<noteq> []" by simp
  have b: "ToKilobytes env_over_budget ''10G'' = (10485760, None)"
    by (simp add: env_over_budget_fields)
  have c: "checkDevLimit env_over_budget ''/data/c1'' (10485760 * 1024) =
        Some (Extern ''dir quota limit is over device limit'')"
    by (simp add: env_over_budget_fields)
  from SetDiskQuota_over_budget [OF EnforceQuota_env_over_budget a b c, of 0]
    EnforceQuota_env_over_budget b c
  show ?thesis by simp
qed

text \<open>
  The claim as written says that no remount and no activation is run. On a driver that
  has not seen the device, both are run before the capacity check fails.
\<close>

theorem SetDiskQuota_over_budget_counterexample:
  "checkDevLimit env_over_budget ''/data/c1'' (10485760 * 1024) =
        Some (Extern ''dir quota limit is over device limit'')
   \<and> SetDiskQuota env_over_budget ''/data/c1'' ''10G'' 0 q0 =
        Some (Some (Wrap (Extern ''dir quota limit is over device limit'')
                      ''failed to check device limit''),
              q0\<lparr>mountPoints := [42 \<mapsto> ''/home/pouch'']\<rparr>,
              [[''mount'', ''-o'', ''remount,prjquota'', ''/home/pouch''],
               [''quotaon'', ''-P'', ''/home/pouch'']])"
  by (simp add: SetDiskQuota_def EnforceQuota_env_over_budget env_over_budget_fields)

subsection \<open>A failed activation\<close>

text \<open>
  C2. The claim says that a failed \<open>quotaon\<close> clears the entry of the device, so that
  the next call tries again. In the code the failing call stores the empty mountpoint
  under the device and returns it with no error (the source wraps \<open>err\<close>, which is
  \<open>nil\<close>, and not \<open>err2\<close>); the next call finds the key in the map and returns the
  empty mountpoint, again with no error, and runs no command, on a machine where the
  whole sequence would have succeeded on an unused driver.
\<close>

theorem EnforceQuota_failure_is_cached:
  "EnforceQuota env_quotaon_fails ''/data/c1'' q0 =
     ([], None, q0\<lparr>mountPoints := [42 \<mapsto> []]\<rparr>,
      [[''mount'', ''-o'', ''remount,prjquota'', ''/home/pouch''],
       [''quotaon'', ''-P'', ''/home/pouch'']])
   \<and> EnforceQuota env0 ''/data/c1'' (q0\<lparr>mountPoints := [42 \<mapsto> []]\<rparr>) =
     ([], None, q0\<lparr>mountPoints := [42 \<mapsto> []]\<rparr>, [])
   \<and> EnforceQuota env0 ''/data/c1'' q0 =
     (''/home/pouch'', None, q0\<lparr>mountPoints := [42 \<mapsto> ''/home/pouch'']\<rparr>,
      [[''mount'', ''-o'', ''remount,prjquota'', ''/home/pouch''],
       [''quotaon'', ''-P'', ''/home/pouch'']])"
proof -
  have "EnforceQuota env_quotaon_fails ''/data/c1'' q0 =
     ([], None, q0\<lparr>mountPoints := [42 \<mapsto> []]\<rparr>,
      [[''mount'', ''-o'', ''remount,prjquota'', ''/home/pouch''],
       [''quotaon'', ''-P'', ''/home/pouch'']])"
    by (simp add: EnforceQuota_def CheckMountpoint_env_quotaon_fails env_quotaon_fails_fields
      remount_cmd_def quotaon_cmd_def run_err_def run_stderr_def xfsFS_def q0_def)
  moreover have "EnforceQuota env0 ''/data/c1'' (q0\<lparr>mountPoints := [42 \<mapsto> []]\<rparr>) =
     ([], None, q0\<lparr>mountPoints := [42 \<mapsto> []]\<rparr>, [])"
    by (simp add: EnforceQuota_def env0_fields)
  ultimately show ?thesis using EnforceQuota_env0 by simp
qed

subsection \<open>The allocator\<close>

text \<open>
  What a call of \<open>GetNextQuotaID\<close> that returns gives: an identifier that is not in the
  set the scan started with, stored in the set and in the marker, and above the floor
  unless it is 0, the value the increment wraps to.
\<close>

lemma word_inc_less:
  fixes x :: u32
  assumes "x + 1 \<noteq> 0"
  shows "x < x + 1"
proof -
  have "x + 1 \<le> x + 1" by simp
  then have "x = - 1 \<or> x < x + 1" by (simp only: inc_less_eq_iff)
  moreover from assms have "x \<noteq> - 1" by auto
  ultimately show ?thesis by simp
qed

lemma next_free_fresh:
  assumes "next_free m ids i = Some r"
  shows "r \<notin> ids \<and> (r \<noteq> 0 \<longrightarrow> m < r)"
  using assms
proof (induct rule: next_free.raw_induct [rotated 1, consumes 1])
  case (1 next_free' minID ids id' r)
  let ?x = "if id' < minID then minID else id'"
  show ?case
  proof (cases "?x + 1 \<in> ids")
    case True
    with 1 show ?thesis by (simp split: if_splits)
  next
    case False
    with 1(2) have r: "r = ?x + 1" by (simp split: if_splits)
    have m: "minID \<le> ?x" by (simp add: linorder_not_less)
    have "r \<noteq> 0 \<longrightarrow> ?x < r"
      unfolding r using word_inc_less [of ?x] by blast
    with m have "r \<noteq> 0 \<longrightarrow> minID < r" by (meson order_le_less_trans)
    with False r show ?thesis by simp
  qed
qed

lemma GetNextQuotaID_fresh:
  assumes "GetNextQuotaID E q = Some (r, None, q')"
  shows "r \<notin> quotaIDs (fst (reload E q))
         \<and> quotaIDs q' = insert r (quotaIDs (fst (reload E q)))
         \<and> lastID q' = r
         \<and> (r \<noteq> 0 \<longrightarrow> QuotaMinID E < r)"
proof -
  obtain q1 e where rl: "reload E q = (q1, e)" by (cases "reload E q")
  with assms have e: "e = None" by (cases e) (simp_all add: GetNextQuotaID_def)
  from assms rl e have nf: "next_free (QuotaMinID E) (quotaIDs q1) (lastID q1) = Some r"
    and q': "q' = q1\<lparr>quotaIDs := insert r (quotaIDs q1), lastID := r\<rparr>"
    by (auto simp: GetNextQuotaID_def split: option.splits)
  from next_free_fresh [OF nf] q' rl show ?thesis by simp
qed

lemma reload_started:
  assumes "lastID q \<noteq> 0"
  shows "reload E q = (q, None)"
  using assms by (simp add: reload_def)

lemma GetNextQuotaID_distinct:
  assumes "GetNextQuotaID E q = Some (a, None, q1)" "a \<noteq> 0"
    and "GetNextQuotaID E' q1 = Some (b, None, q2)"
  shows "a \<noteq> b \<and> a \<in> quotaIDs q2 \<and> b \<in> quotaIDs q2"
proof -
  from GetNextQuotaID_fresh [OF assms(1)]
  have 1: "a \<in> quotaIDs q1" "lastID q1 = a" by simp_all
  with assms(2) have "reload E' q1 = (q1, None)" by (simp add: reload_started)
  with GetNextQuotaID_fresh [OF assms(3)]
  have "b \<notin> quotaIDs q1" "quotaIDs q2 = insert b (quotaIDs q1)" by simp_all
  with 1 show ?thesis by auto
qed

lemma next_free_immediate:
  assumes "(if i < m then m else i) + 1 \<notin> ids"
  shows "next_free m ids i = Some ((if i < m then m else i) + 1)"
  using assms by (subst next_free.simps) simp

lemma env_full_fields:
  "QuotaMinID env_full = 16777216"
  "loadQuotaIDs env_full opt = ({4294967295}, 4294967295, None)"
  by (simp_all add: env_full_def env0_def)

text \<open>
  C3. The claim says that no two calls return the same identifier and that every
  identifier returned is at least \<open>QuotaMinID\<close>. The increment of the \<open>uint32\<close> wraps:
  with the floor 16777216 and a quota listing whose largest identifier is 4294967295, the
  first call on an unused driver returns 0, below the floor, and sets the marker to 0;
  the second call therefore loads the listing again and returns 0 again.
\<close>

theorem GetNextQuotaID_wraps_to_zero:
  "QuotaMinID env_full = 16777216
   \<and> GetNextQuotaID env_full q0 =
       Some (0, None, \<lparr>quotaIDs = {0, 4294967295}, mountPoints = Map.empty, lastID = 0\<rparr>)
   \<and> GetNextQuotaID env_full
         \<lparr>quotaIDs = {0, 4294967295}, mountPoints = Map.empty, lastID = 0\<rparr> =
       Some (0, None, \<lparr>quotaIDs = {0, 4294967295}, mountPoints = Map.empty, lastID = 0\<rparr>)"
proof -
  have n: "next_free 16777216 {4294967295} 4294967295 = Some 0"
    by (subst next_free.simps) simp
  show ?thesis
    by (simp add: GetNextQuotaID_def reload_def env_full_fields q0_def n)
qed

subsection \<open>The scan of the mount table\<close>

text \<open>
  One round of the loop of \<open>CheckMountpoint\<close>, in the words of the entries: a matching
  line is selected unless a shorter, non-empty mountpoint is selected already; the flag is
  raised when the options of a selected line contain prjquota, and never lowered.
\<close>

lemma scan_options_eq: "scan_options eq vs = (eq \<or> ''prjquota'' \<in> set vs)"
  by (induction vs) auto

lemma mount_line_eq:
  "mount_line E d (mp, eq, fs) l =
     (if is_match E d l \<and> \<not> (mp \<noteq> [] \<and> length mp < length (mountpoint_of l))
      then (mountpoint_of l, eq \<or> ''prjquota'' \<in> set (options_of l), Split l CHR '' '' ! 2)
      else (mp, eq, fs))"
  by (auto simp: mount_line_def is_match_def mountpoint_of_def options_of_def Let_def
      scan_options_eq)

lemma foldl_mount_line_shortest:
  assumes "\<forall>l\<in>set ls. is_match E d l \<longrightarrow> mountpoint_of l \<noteq> []"
  shows "(candidates E d mp ls = {} \<longrightarrow> fst (foldl (mount_line E d) (mp, eq, fs) ls) = [])
       \<and> (candidates E d mp ls \<noteq> {} \<longrightarrow>
            fst (foldl (mount_line E d) (mp, eq, fs) ls) \<in> candidates E d mp ls
            \<and> (\<forall>m\<in>candidates E d mp ls.
                  length (fst (foldl (mount_line E d) (mp, eq, fs) ls)) \<le> length m))"
  using assms
proof (induction ls arbitrary: mp eq fs)
  case Nil
  then show ?case by (simp add: candidates_def)
next
  case (Cons x xs)
  obtain mp1 eq1 fs1 where s: "mount_line E d (mp, eq, fs) x = (mp1, eq1, fs1)"
    by (cases "mount_line E d (mp, eq, fs) x")
  from Cons.prems have p: "\<forall>l\<in>set xs. is_match E d l \<longrightarrow> mountpoint_of l \<noteq> []" by simp
  note IH = Cons.IH [OF p, of mp1 eq1 fs1]
  show ?case
  proof (cases "is_match E d x \<and> \<not> (mp \<noteq> [] \<and> length mp < length (mountpoint_of x))")
    case True
    with s have mp1: "mp1 = mountpoint_of x" by (auto simp: mount_line_eq split: if_splits)
    from True Cons.prems have ne: "mountpoint_of x \<noteq> []" by simp
    have c1: "candidates E d mp1 xs \<noteq> {}" using mp1 ne by (simp add: candidates_def)
    have sub: "candidates E d mp1 xs \<subseteq> candidates E d mp (x # xs)"
      using mp1 True by (auto simp: candidates_def)
    have cov: "\<forall>m\<in>candidates E d mp (x # xs).
                 \<exists>m'\<in>candidates E d mp1 xs. length m' \<le> length m"
      using mp1 True ne by (auto simp: candidates_def)
    from IH c1 have r: "fst (foldl (mount_line E d) (mp1, eq1, fs1) xs) \<in> candidates E d mp1 xs"
      and mn: "\<forall>m\<in>candidates E d mp1 xs.
                  length (fst (foldl (mount_line E d) (mp1, eq1, fs1) xs)) \<le> length m"
      by simp_all
    from r sub have "fst (foldl (mount_line E d) (mp1, eq1, fs1) xs) \<in> candidates E d mp (x # xs)"
      by blast
    moreover from mn cov
    have "\<forall>m\<in>candidates E d mp (x # xs).
            length (fst (foldl (mount_line E d) (mp1, eq1, fs1) xs)) \<le> length m"
      by (meson order_trans)
    ultimately show ?thesis using s by auto
  next
    case False
    with s have mp1: "mp1 = mp" by (auto simp: mount_line_eq split: if_splits)
    have cov: "\<forall>m\<in>candidates E d mp (x # xs).
                 \<exists>m'\<in>candidates E d mp xs. length m' \<le> length m"
      using False by (auto simp: candidates_def)
    have sub: "candidates E d mp xs \<subseteq> candidates E d mp (x # xs)"
      by (auto simp: candidates_def)
    have e: "candidates E d mp (x # xs) = {} \<longleftrightarrow> candidates E d mp xs = {}"
      using cov sub by blast
    show ?thesis
    proof (cases "candidates E d mp xs = {}")
      case True
      with IH mp1 e s show ?thesis by simp
    next
      case False
      with IH mp1 have r: "fst (foldl (mount_line E d) (mp, eq1, fs1) xs) \<in> candidates E d mp xs"
        and mn: "\<forall>m\<in>candidates E d mp xs.
                  length (fst (foldl (mount_line E d) (mp, eq1, fs1) xs)) \<le> length m"
        by simp_all
      from mn cov
      have "\<forall>m\<in>candidates E d mp (x # xs).
            length (fst (foldl (mount_line E d) (mp, eq1, fs1) xs)) \<le> length m"
        by (meson order_trans)
      with r sub s mp1 show ?thesis by auto
    qed
  qed
qed

lemma candidates_matches:
  "candidates E d [] (Split output (CHR 0x0A)) = mountpoint_of ` set (matches E d output)"
  by (auto simp: candidates_def matches_def)

lemma match_has_mountpoint:
  assumes "fst (getDevID E []) \<noteq> d"
  shows "\<forall>l\<in>set ls. is_match E d l \<longrightarrow> mountpoint_of l \<noteq> []"
  using assms by (auto simp: is_match_def)

lemma raises_Nil: "\<not> raises E d mp []"
  by (simp add: raises_def)

lemma raises_Cons:
  "raises E d mp (x # xs) =
     ((is_match E d x \<and> ''prjquota'' \<in> set (options_of x)
        \<and> (mp \<noteq> [] \<longrightarrow> length (mountpoint_of x) \<le> length mp))
      \<or> (\<exists>before l after. xs = before @ l # after
            \<and> is_match E d l \<and> ''prjquota'' \<in> set (options_of l)
            \<and> (mp \<noteq> [] \<longrightarrow> length (mountpoint_of l) \<le> length mp)
            \<and> (is_match E d x \<longrightarrow> length (mountpoint_of l) \<le> length (mountpoint_of x))
            \<and> (\<forall>m\<in>set before. is_match E d m \<longrightarrow>
                  length (mountpoint_of l) \<le> length (mountpoint_of m))))"
  (is "?L = (?A \<or> ?B)")
proof
  assume ?L
  then obtain before l after where h: "x # xs = before @ l # after"
    "is_match E d l" "''prjquota'' \<in> set (options_of l)"
    "mp \<noteq> [] \<longrightarrow> length (mountpoint_of l) \<le> length mp"
    "\<forall>m\<in>set before. is_match E d m \<longrightarrow> length (mountpoint_of l) \<le> length (mountpoint_of m)"
    unfolding raises_def by blast
  show "?A \<or> ?B"
  proof (cases before)
    case Nil
    with h show ?thesis by simp
  next
    case (Cons b bs)
    with h(1) have "b = x" "xs = bs @ l # after" by simp_all
    with h Cons have ?B by auto
    then show ?thesis ..
  qed
next
  assume "?A \<or> ?B"
  then show ?L
  proof
    assume ?A
    then have "x # xs = [] @ x # xs \<and> is_match E d x \<and> ''prjquota'' \<in> set (options_of x)
        \<and> (mp \<noteq> [] \<longrightarrow> length (mountpoint_of x) \<le> length mp)
        \<and> (\<forall>m\<in>set []. is_match E d m \<longrightarrow>
              length (mountpoint_of x) \<le> length (mountpoint_of m))" by simp
    then show ?L unfolding raises_def by blast
  next
    assume ?B
    then obtain before l after where h: "xs = before @ l # after"
      "is_match E d l" "''prjquota'' \<in> set (options_of l)"
      "mp \<noteq> [] \<longrightarrow> length (mountpoint_of l) \<le> length mp"
      "is_match E d x \<longrightarrow> length (mountpoint_of l) \<le> length (mountpoint_of x)"
      "\<forall>m\<in>set before. is_match E d m \<longrightarrow> length (mountpoint_of l) \<le> length (mountpoint_of m)"
      by blast
    then have "x # xs = (x # before) @ l # after \<and> is_match E d l
        \<and> ''prjquota'' \<in> set (options_of l)
        \<and> (mp \<noteq> [] \<longrightarrow> length (mountpoint_of l) \<le> length mp)
        \<and> (\<forall>m\<in>set (x # before). is_match E d m \<longrightarrow>
              length (mountpoint_of l) \<le> length (mountpoint_of m))" by simp
    then show ?L unfolding raises_def by blast
  qed
qed

lemma raises_selected:
  assumes "is_match E d x" "mountpoint_of x \<noteq> []"
    and "mp \<noteq> [] \<longrightarrow> length (mountpoint_of x) \<le> length mp"
  shows "raises E d mp (x # xs) =
           (''prjquota'' \<in> set (options_of x) \<or> raises E d (mountpoint_of x) xs)"
proof -
  let ?B = "\<exists>before l after. xs = before @ l # after
            \<and> is_match E d l \<and> ''prjquota'' \<in> set (options_of l)
            \<and> (mp \<noteq> [] \<longrightarrow> length (mountpoint_of l) \<le> length mp)
            \<and> (is_match E d x \<longrightarrow> length (mountpoint_of l) \<le> length (mountpoint_of x))
            \<and> (\<forall>m\<in>set before. is_match E d m \<longrightarrow>
                  length (mountpoint_of l) \<le> length (mountpoint_of m))"
  have "?B = raises E d (mountpoint_of x) xs"
  proof
    assume ?B
    then obtain before l after where h: "xs = before @ l # after"
      "is_match E d l" "''prjquota'' \<in> set (options_of l)"
      "is_match E d x \<longrightarrow> length (mountpoint_of l) \<le> length (mountpoint_of x)"
      "\<forall>m\<in>set before. is_match E d m \<longrightarrow> length (mountpoint_of l) \<le> length (mountpoint_of m)"
      by blast
    with assms(1) have "xs = before @ l # after \<and> is_match E d l
        \<and> ''prjquota'' \<in> set (options_of l)
        \<and> (mountpoint_of x \<noteq> [] \<longrightarrow> length (mountpoint_of l) \<le> length (mountpoint_of x))
        \<and> (\<forall>m\<in>set before. is_match E d m \<longrightarrow>
              length (mountpoint_of l) \<le> length (mountpoint_of m))" by simp
    then show "raises E d (mountpoint_of x) xs" unfolding raises_def by blast
  next
    assume "raises E d (mountpoint_of x) xs"
    then obtain before l after where h: "xs = before @ l # after"
      "is_match E d l" "''prjquota'' \<in> set (options_of l)"
      "mountpoint_of x \<noteq> [] \<longrightarrow> length (mountpoint_of l) \<le> length (mountpoint_of x)"
      "\<forall>m\<in>set before. is_match E d m \<longrightarrow> length (mountpoint_of l) \<le> length (mountpoint_of m)"
      unfolding raises_def by blast
    from h(4) assms(2) have le: "length (mountpoint_of l) \<le> length (mountpoint_of x)" by simp
    with assms(3) have "mp \<noteq> [] \<longrightarrow> length (mountpoint_of l) \<le> length mp" by auto
    with h le have "xs = before @ l # after \<and> is_match E d l
        \<and> ''prjquota'' \<in> set (options_of l)
        \<and> (mp \<noteq> [] \<longrightarrow> length (mountpoint_of l) \<le> length mp)
        \<and> (is_match E d x \<longrightarrow> length (mountpoint_of l) \<le> length (mountpoint_of x))
        \<and> (\<forall>m\<in>set before. is_match E d m \<longrightarrow>
              length (mountpoint_of l) \<le> length (mountpoint_of m))" by simp
    then show ?B by blast
  qed
  with assms show ?thesis by (subst raises_Cons) blast
qed

lemma raises_skipped:
  assumes "\<not> (is_match E d x \<and> \<not> (mp \<noteq> [] \<and> length mp < length (mountpoint_of x)))"
  shows "raises E d mp (x # xs) = raises E d mp xs"
proof -
  let ?B = "\<exists>before l after. xs = before @ l # after
            \<and> is_match E d l \<and> ''prjquota'' \<in> set (options_of l)
            \<and> (mp \<noteq> [] \<longrightarrow> length (mountpoint_of l) \<le> length mp)
            \<and> (is_match E d x \<longrightarrow> length (mountpoint_of l) \<le> length (mountpoint_of x))
            \<and> (\<forall>m\<in>set before. is_match E d m \<longrightarrow>
                  length (mountpoint_of l) \<le> length (mountpoint_of m))"
  from assms have sk: "is_match E d x \<longrightarrow> mp \<noteq> [] \<and> length mp < length (mountpoint_of x)"
    by blast
  have "?B = raises E d mp xs"
  proof
    assume ?B
    then show "raises E d mp xs" unfolding raises_def by blast
  next
    assume "raises E d mp xs"
    then obtain before l after where h: "xs = before @ l # after"
      "is_match E d l" "''prjquota'' \<in> set (options_of l)"
      "mp \<noteq> [] \<longrightarrow> length (mountpoint_of l) \<le> length mp"
      "\<forall>m\<in>set before. is_match E d m \<longrightarrow> length (mountpoint_of l) \<le> length (mountpoint_of m)"
      unfolding raises_def by blast
    from h(4) sk have "is_match E d x \<longrightarrow> length (mountpoint_of l) \<le> length (mountpoint_of x)"
      by auto
    with h have "xs = before @ l # after \<and> is_match E d l
        \<and> ''prjquota'' \<in> set (options_of l)
        \<and> (mp \<noteq> [] \<longrightarrow> length (mountpoint_of l) \<le> length mp)
        \<and> (is_match E d x \<longrightarrow> length (mountpoint_of l) \<le> length (mountpoint_of x))
        \<and> (\<forall>m\<in>set before. is_match E d m \<longrightarrow>
              length (mountpoint_of l) \<le> length (mountpoint_of m))" by simp
    then show ?B by blast
  qed
  moreover from sk have "\<not> (is_match E d x \<and> ''prjquota'' \<in> set (options_of x)
        \<and> (mp \<noteq> [] \<longrightarrow> length (mountpoint_of x) \<le> length mp))"
    by auto
  ultimately show ?thesis by (subst raises_Cons) blast
qed

lemma foldl_flag_exact:
  assumes "\<forall>l\<in>set ls. is_match E d l \<longrightarrow> mountpoint_of l \<noteq> []"
  shows "fst (snd (foldl (mount_line E d) (mp, eq, fs) ls)) = (eq \<or> raises E d mp ls)"
  using assms
proof (induction ls arbitrary: mp eq fs)
  case Nil
  show ?case by (simp add: raises_Nil)
next
  case (Cons x xs)
  from Cons.prems have p: "\<forall>l\<in>set xs. is_match E d l \<longrightarrow> mountpoint_of l \<noteq> []" by simp
  show ?case
  proof (cases "is_match E d x \<and> \<not> (mp \<noteq> [] \<and> length mp < length (mountpoint_of x))")
    case True
    with Cons.prems have ne: "mountpoint_of x \<noteq> []" by simp
    from True have le: "mp \<noteq> [] \<longrightarrow> length (mountpoint_of x) \<le> length mp" by auto
    from True have m: "is_match E d x" by simp
    from True have "mount_line E d (mp, eq, fs) x =
        (mountpoint_of x, eq \<or> ''prjquota'' \<in> set (options_of x), Split x CHR '' '' ! 2)"
      by (simp add: mount_line_eq)
    with Cons.IH [OF p, of "mountpoint_of x" "eq \<or> ''prjquota'' \<in> set (options_of x)"
        "Split x CHR '' '' ! 2"]
    have "fst (snd (foldl (mount_line E d) (mp, eq, fs) (x # xs))) =
        ((eq \<or> ''prjquota'' \<in> set (options_of x)) \<or> raises E d (mountpoint_of x) xs)"
      by simp
    with raises_selected [OF m ne le, of xs] show ?thesis by auto
  next
    case False
    then have "mount_line E d (mp, eq, fs) x = (mp, eq, fs)"
      by (auto simp: mount_line_eq)
    with Cons.IH [OF p, of mp eq fs] raises_skipped [OF False, of xs]
    show ?thesis by simp
  qed
qed

text \<open>
  C5. When the mount table is read and lines of it match the queried device (six
  fields, a supported filesystem kind, a mountpoint whose device identifier is the
  queried one; the empty string is no such mountpoint: \<open>getDevID\<close> of the empty path
  does not answer the queried device), \<open>CheckMountpoint\<close> returns the mountpoint of a
  matching line, and no matching line has a shorter one. This holds for one match and for
  more than one.
\<close>

theorem CheckMountpoint_shortest:
  assumes "ReadFile_procMountFile E = (output, None)"
    and "fst (getDevID E []) \<noteq> devID"
    and "matches E devID output \<noteq> []"
  shows "fst (CheckMountpoint E devID) \<in> mountpoint_of ` set (matches E devID output)
       \<and> (\<forall>l\<in>set (matches E devID output).
             length (fst (CheckMountpoint E devID)) \<le> length (mountpoint_of l))"
proof -
  let ?ls = "Split output (CHR 0x0A)"
  from assms(1) have cm: "CheckMountpoint E devID = foldl (mount_line E devID) ([], False, []) ?ls"
    by (simp add: CheckMountpoint_def)
  note p = match_has_mountpoint [OF assms(2), of ?ls]
  from assms(3) have ne: "candidates E devID [] ?ls \<noteq> {}"
    by (simp add: candidates_matches)
  from foldl_mount_line_shortest [OF p, of "[]" False "[]"] ne cm
  show ?thesis by (simp add: candidates_matches)
qed

theorem CheckMountpoint_shortest_witness:
  "ReadFile_procMountFile env_bind =
     (''/dev/sdb1 /home/pouch ext4 rw,prjquota 0 0'' @ [CHR 0x0A] @
      ''/dev/sdb1 /a ext4 rw,relatime 0 0'' @ [CHR 0x0A], None)
   \<and> fst (getDevID env_bind []) \<noteq> 42
   \<and> matches env_bind 42 (''/dev/sdb1 /home/pouch ext4 rw,prjquota 0 0'' @ [CHR 0x0A] @
      ''/dev/sdb1 /a ext4 rw,relatime 0 0'' @ [CHR 0x0A]) =
      [''/dev/sdb1 /home/pouch ext4 rw,prjquota 0 0'', ''/dev/sdb1 /a ext4 rw,relatime 0 0'']
   \<and> mountpoint_of ''/dev/sdb1 /home/pouch ext4 rw,prjquota 0 0'' = ''/home/pouch''
   \<and> mountpoint_of ''/dev/sdb1 /a ext4 rw,relatime 0 0'' = ''/a''
   \<and> fst (CheckMountpoint env_bind 42) = ''/a''
   \<and> fst (CheckMountpoint env_bind 42) \<in> {''/home/pouch'', ''/a''}
   \<and> length (fst (CheckMountpoint env_bind 42)) \<le> length ''/home/pouch''
   \<and> length (fst (CheckMountpoint env_bind 42)) \<le> length ''/a''"
proof -
  let ?out = "''/dev/sdb1 /home/pouch ext4 rw,prjquota 0 0'' @ [CHR 0x0A] @
      ''/dev/sdb1 /a ext4 rw,relatime 0 0'' @ [CHR 0x0A]"
  have a: "ReadFile_procMountFile env_bind = (?out, None)"
    by (simp add: env_bind_fields)
  have e: "fst (getDevID env_bind []) \<noteq> 42"
    by (simp add: env_bind_def env0_def)
  have m1: "mountpoint_of ''/dev/sdb1 /home/pouch ext4 rw,prjquota 0 0'' = ''/home/pouch''"
    and m2: "mountpoint_of ''/dev/sdb1 /a ext4 rw,relatime 0 0'' = ''/a''"
    by (simp_all add: mountpoint_of_def)
  have b: "matches env_bind 42 ?out \<noteq> []"
    by (simp only: matches_env_bind) simp
  from CheckMountpoint_shortest [OF a e b]
  have "fst (CheckMountpoint env_bind 42) \<in> {''/home/pouch'', ''/a''}
     \<and> length (fst (CheckMountpoint env_bind 42)) \<le> length ''/home/pouch''
     \<and> length (fst (CheckMountpoint env_bind 42)) \<le> length ''/a''"
    by (simp only: matches_env_bind) (simp add: m1 m2)
  with a e matches_env_bind m1 m2 CheckMountpoint_env_bind show ?thesis by simp
qed

text \<open>
  C7, as the code has it. When the mount table is read (and \<open>getDevID\<close> of the empty
  path does not answer the queried device), the flag returned is true exactly when the
  table has a matching line whose options contain prjquota and whose mountpoint is no
  longer than the mountpoint of any matching line before it in the table, that is, a line
  that was the selected match when it was read.
\<close>

theorem CheckMountpoint_quota_flag:
  assumes "ReadFile_procMountFile E = (output, None)"
    and "fst (getDevID E []) \<noteq> devID"
  shows "fst (snd (CheckMountpoint E devID)) =
     (\<exists>before l after. Split output (CHR 0x0A) = before @ l # after
        \<and> is_match E devID l \<and> ''prjquota'' \<in> set (options_of l)
        \<and> (\<forall>m\<in>set before. is_match E devID m \<longrightarrow>
              length (mountpoint_of l) \<le> length (mountpoint_of m)))"
proof -
  let ?ls = "Split output (CHR 0x0A)"
  from assms(1) have cm: "CheckMountpoint E devID = foldl (mount_line E devID) ([], False, []) ?ls"
    by (simp add: CheckMountpoint_def)
  note p = match_has_mountpoint [OF assms(2), of ?ls]
  from foldl_flag_exact [OF p, of "[]" False "[]"] cm
  have "fst (snd (CheckMountpoint E devID)) = raises E devID [] ?ls" by simp
  then show ?thesis by (simp add: raises_def)
qed

theorem CheckMountpoint_quota_flag_witness:
  "ReadFile_procMountFile env_bind =
     (''/dev/sdb1 /home/pouch ext4 rw,prjquota 0 0'' @ [CHR 0x0A] @
      ''/dev/sdb1 /a ext4 rw,relatime 0 0'' @ [CHR 0x0A], None)
   \<and> fst (getDevID env_bind []) \<noteq> 42
   \<and> fst (snd (CheckMountpoint env_bind 42))
   \<and> (\<exists>before l after.
         [''/dev/sdb1 /home/pouch ext4 rw,prjquota 0 0'', ''/dev/sdb1 /a ext4 rw,relatime 0 0'', []]
           = before @ l # after
         \<and> is_match env_bind 42 l \<and> ''prjquota'' \<in> set (options_of l)
         \<and> (\<forall>m\<in>set before. is_match env_bind 42 m \<longrightarrow>
               length (mountpoint_of l) \<le> length (mountpoint_of m)))
   \<and> ReadFile_procMountFile env_bind_late =
     (''/dev/sdb1 /a ext4 rw,relatime 0 0'' @ [CHR 0x0A] @
      ''/dev/sdb1 /home/pouch ext4 rw,prjquota 0 0'' @ [CHR 0x0A], None)
   \<and> fst (getDevID env_bind_late []) \<noteq> 42
   \<and> \<not> fst (snd (CheckMountpoint env_bind_late 42))
   \<and> \<not> (\<exists>before l after.
         [''/dev/sdb1 /a ext4 rw,relatime 0 0'', ''/dev/sdb1 /home/pouch ext4 rw,prjquota 0 0'', []]
           = before @ l # after
         \<and> is_match env_bind_late 42 l \<and> ''prjquota'' \<in> set (options_of l)
         \<and> (\<forall>m\<in>set before. is_match env_bind_late 42 m \<longrightarrow>
               length (mountpoint_of l) \<le> length (mountpoint_of m)))"
proof -
  have a: "ReadFile_procMountFile env_bind =
     (''/dev/sdb1 /home/pouch ext4 rw,prjquota 0 0'' @ [CHR 0x0A] @
      ''/dev/sdb1 /a ext4 rw,relatime 0 0'' @ [CHR 0x0A], None)"
    by (simp add: env_bind_fields)
  have e: "fst (getDevID env_bind []) \<noteq> 42"
    by (simp add: env_bind_def env0_def)
  have f: "fst (snd (CheckMountpoint env_bind 42))"
    by (simp add: CheckMountpoint_env_bind)
  have a': "ReadFile_procMountFile env_bind_late =
     (''/dev/sdb1 /a ext4 rw,relatime 0 0'' @ [CHR 0x0A] @
      ''/dev/sdb1 /home/pouch ext4 rw,prjquota 0 0'' @ [CHR 0x0A], None)"
    by (simp add: env_bind_late_fields)
  have e': "fst (getDevID env_bind_late []) \<noteq> 42"
    by (simp add: env_bind_late_fields)
  have f': "\<not> fst (snd (CheckMountpoint env_bind_late 42))"
    by (simp add: CheckMountpoint_env_bind_late)
  from CheckMountpoint_quota_flag [OF a e]
  have "fst (snd (CheckMountpoint env_bind 42)) = (\<exists>before l after.
         [''/dev/sdb1 /home/pouch ext4 rw,prjquota 0 0'', ''/dev/sdb1 /a ext4 rw,relatime 0 0'', []]
           = before @ l # after
         \<and> is_match env_bind 42 l \<and> ''prjquota'' \<in> set (options_of l)
         \<and> (\<forall>m\<in>set before. is_match env_bind 42 m \<longrightarrow>
               length (mountpoint_of l) \<le> length (mountpoint_of m)))"
    by (simp only: Split_env_bind)
  with f have x: "\<exists>before l after.
         [''/dev/sdb1 /home/pouch ext4 rw,prjquota 0 0'', ''/dev/sdb1 /a ext4 rw,relatime 0 0'', []]
           = before @ l # after
         \<and> is_match env_bind 42 l \<and> ''prjquota'' \<in> set (options_of l)
         \<and> (\<forall>m\<in>set before. is_match env_bind 42 m \<longrightarrow>
               length (mountpoint_of l) \<le> length (mountpoint_of m))"
    by blast
  from CheckMountpoint_quota_flag [OF a' e']
  have "fst (snd (CheckMountpoint env_bind_late 42)) = (\<exists>before l after.
         [''/dev/sdb1 /a ext4 rw,relatime 0 0'', ''/dev/sdb1 /home/pouch ext4 rw,prjquota 0 0'', []]
           = before @ l # after
         \<and> is_match env_bind_late 42 l \<and> ''prjquota'' \<in> set (options_of l)
         \<and> (\<forall>m\<in>set before. is_match env_bind_late 42 m \<longrightarrow>
               length (mountpoint_of l) \<le> length (mountpoint_of m)))"
    by (simp only: Split_env_bind_late)
  with f' have y: "\<not> (\<exists>before l after.
         [''/dev/sdb1 /a ext4 rw,relatime 0 0'', ''/dev/sdb1 /home/pouch ext4 rw,prjquota 0 0'', []]
           = before @ l # after
         \<and> is_match env_bind_late 42 l \<and> ''prjquota'' \<in> set (options_of l)
         \<and> (\<forall>m\<in>set before. is_match env_bind_late 42 m \<longrightarrow>
               length (mountpoint_of l) \<le> length (mountpoint_of m)))"
    by blast
  from a e f x a' e' f' y show ?thesis by blast
qed

text \<open>
  The claim as written ties the flag to the line that is returned. With a bind mount of
  the device at /home/pouch with prjquota and, later in the table, at /a without it, the
  mountpoint returned is /a and the flag is true.
\<close>

theorem CheckMountpoint_sticky_flag_counterexample:
  "ReadFile_procMountFile env_bind =
     (''/dev/sdb1 /home/pouch ext4 rw,prjquota 0 0'' @ [CHR 0x0A] @
      ''/dev/sdb1 /a ext4 rw,relatime 0 0'' @ [CHR 0x0A], None)
   \<and> CheckMountpoint env_bind 42 = (''/a'', True, ''ext4'')
   \<and> mountpoint_of ''/dev/sdb1 /home/pouch ext4 rw,prjquota 0 0'' = ''/home/pouch''
   \<and> mountpoint_of ''/dev/sdb1 /a ext4 rw,relatime 0 0'' = ''/a''
   \<and> options_of ''/dev/sdb1 /a ext4 rw,relatime 0 0'' = [''rw'', ''relatime'']
   \<and> ''prjquota'' \<notin> set (options_of ''/dev/sdb1 /a ext4 rw,relatime 0 0'')"
  by (simp add: env_bind_fields CheckMountpoint_env_bind mountpoint_of_def options_of_def)

end
